theory Spec2Isabelle
  imports Main
begin

section \<open>Strings and errors\<close>

text \<open>
  Python strings are modelled as HOL strings. The model covers ASCII text: a character
  outside ASCII is left alone by \<open>lower\<close> and is never whitespace nor a digit.
  Python integers are unbounded, so they are \<open>int\<close>; \<open>//\<close> is floor division,
  which is \<open>div\<close> on \<open>int\<close>.
\<close>

text \<open>
  Every error the core raises is a Python \<open>ValueError\<close>; the constructors tell the
  raising sites apart and carry the variable part of the message.
\<close>

datatype error =
    UnknownAbility string
  | InvalidDice
  | InvalidDiceNotation string
  | NoCombatants

definition lower_table :: "(char \<times> char) list" where
  "lower_table = zip ''ABCDEFGHIJKLMNOPQRSTUVWXYZ'' ''abcdefghijklmnopqrstuvwxyz''"

definition lower_char :: "char \<Rightarrow> char" where
  "lower_char c = (case map_of lower_table c of None \<Rightarrow> c | Some l \<Rightarrow> l)"

definition lower :: "string \<Rightarrow> string" where
  "lower s = map lower_char s"

text \<open>\<open>str\<close> of an integer, as used by the f-strings.\<close>

definition digit_char :: "nat \<Rightarrow> char" where
  "digit_char n = ''0123456789'' ! (n mod 10)"

fun str_nat :: "nat \<Rightarrow> string" where
  "str_nat n = (if n < 10 then [digit_char n] else str_nat (n div 10) @ [digit_char n])"

declare str_nat.simps [simp del]

definition str :: "int \<Rightarrow> string" where
  "str i = (if i < 0 then CHR ''-'' # str_nat (nat (- i)) else str_nat (nat i))"

text \<open>\<open>sep.join(parts)\<close>.\<close>

fun join :: "string \<Rightarrow> string list \<Rightarrow> string" where
  "join sep [] = []"
| "join sep [x] = x"
| "join sep (x # y # ys) = x @ sep @ join sep (y # ys)"

section \<open>Dice (app/core/dice.py)\<close>

text \<open>
  The random source is the sequence of raw draws still to come. \<open>random.randint(a, b)\<close>
  is called with \<open>a \<le> b\<close> only and returns an integer between \<open>a\<close> and \<open>b\<close>: the
  next draw reduced to that range. Every value of the range is returned for some source.
\<close>

type_synonym rng = "nat \<Rightarrow> nat"

definition randint :: "int \<Rightarrow> int \<Rightarrow> rng \<Rightarrow> int \<times> rng" where
  "randint a b g = (a + int (g 0 mod nat (b - a + 1)), \<lambda>i. g (Suc i))"

text \<open>\<open>[random.randint(1, sides) for _ in range(count)]\<close>\<close>

fun randints :: "int \<Rightarrow> nat \<Rightarrow> rng \<Rightarrow> int list \<times> rng" where
  "randints sides 0 g = ([], g)"
| "randints sides (Suc n) g =
     (case randint 1 sides g of
        (r, g1) \<Rightarrow> (case randints sides n g1 of (rs, g2) \<Rightarrow> (r # rs, g2)))"

record roll_result =
  rolls :: "int list"
  modifier :: int
  total :: int
  description :: string
  sides :: int
  count :: int

text \<open>
  The parameters of \<open>roll\<close> and \<open>d20\<close> carry the names of fields of the result, so
  both are written as abstractions.
\<close>

definition roll :: "int \<Rightarrow> int \<Rightarrow> int \<Rightarrow> rng \<Rightarrow> error + (roll_result \<times> rng)" where
  "roll = (\<lambda>sides count modifier g.
     if sides < 1 \<or> count < 1 then Inl InvalidDice
     else (let (rolls, g1) = randints sides (nat count) g;
               total = sum_list rolls + modifier;
               desc = str count @ ''d'' @ str sides;
               desc = (if modifier > 0 then desc @ ''+'' @ str modifier
                       else if modifier < 0 then desc @ str modifier
                       else desc)
           in Inr (\<lparr>rolls = rolls, modifier = modifier, total = total,
                     description = desc, sides = sides, count = count\<rparr>, g1)))"

definition d20 :: "int \<Rightarrow> rng \<Rightarrow> error + (roll_result \<times> rng)" where
  "d20 = (\<lambda>modifier g. roll 20 1 modifier g)"

text \<open>
  \<open>str.strip()\<close> removes leading and trailing whitespace; the ASCII characters for
  which \<open>isspace\<close> holds are the tab, the line feed, the vertical tab, the form feed,
  the carriage return, the four separators 0x1C to 0x1F and the space.
\<close>

definition is_space :: "char \<Rightarrow> bool" where
  "is_space c \<longleftrightarrow>
     c \<in> set [CHR 0x09, CHR 0x0A, CHR 0x0B, CHR 0x0C, CHR 0x0D,
                CHR 0x1C, CHR 0x1D, CHR 0x1E, CHR 0x1F, CHR '' '']"

definition strip :: "string \<Rightarrow> string" where
  "strip s = rev (dropWhile is_space (rev (dropWhile is_space s)))"

text \<open>\<open>s.replace(" ", "")\<close>\<close>

definition remove_spaces :: "string \<Rightarrow> string" where
  "remove_spaces s = filter (\<lambda>c. c \<noteq> CHR '' '') s"

definition is_digit :: "char \<Rightarrow> bool" where
  "is_digit c \<longleftrightarrow> c \<in> set ''0123456789''"

text \<open>
  \<open>re.match\<close> on the pattern \<^verbatim>\<open>^(\d+)d(\d+)([+-]\d+)?$\<close>, returning the three groups.
  A run of digits is followed by a character that is not a digit, so the greedy
  \<^verbatim>\<open>\d+\<close> never gives a digit back. Python's \<^verbatim>\<open>$\<close> matches at the end of the
  string and also just before a line feed that ends the string.
\<close>

definition at_end :: "string \<Rightarrow> bool" where
  "at_end r \<longleftrightarrow> r = [] \<or> r = [CHR 0x0A]"

definition match_dice :: "string \<Rightarrow> (string \<times> string \<times> string option) option" where
  "match_dice s =
     (let g1 = takeWhile is_digit s; r1 = dropWhile is_digit s
      in if g1 = [] then None
         else (case r1 of
                 [] \<Rightarrow> None
               | c # r2 \<Rightarrow>
                   if c \<noteq> CHR ''d'' then None
                   else (let g2 = takeWhile is_digit r2; r3 = dropWhile is_digit r2
                         in if g2 = [] then None
                            else (case r3 of
                                    [] \<Rightarrow> Some (g1, g2, None)
                                  | sg # r4 \<Rightarrow>
                                      (let g3 = takeWhile is_digit r4;
                                           r5 = dropWhile is_digit r4
                                       in if (sg = CHR ''+'' \<or> sg = CHR ''-'') \<and> g3 \<noteq> []
                                             \<and> at_end r5
                                          then Some (g1, g2, Some (sg # g3))
                                          else if at_end r3 then Some (g1, g2, None)
                                          else None)))))"

text \<open>\<open>int\<close> on a group of the match: decimal digits after an optional sign.\<close>

definition digit_value :: "char \<Rightarrow> int" where
  "digit_value c = int (of_char c - 48)"

definition digits_value :: "string \<Rightarrow> int" where
  "digits_value ds = foldl (\<lambda>acc c. 10 * acc + digit_value c) 0 ds"

definition py_int :: "string \<Rightarrow> int" where
  "py_int s =
     (case s of
        [] \<Rightarrow> 0
      | c # ds \<Rightarrow>
          if c = CHR ''-'' then - digits_value ds
          else if c = CHR ''+'' then digits_value ds
          else digits_value s)"

definition parse_and_roll :: "string \<Rightarrow> rng \<Rightarrow> error + (roll_result \<times> rng)" where
  "parse_and_roll dice_string g =
     (let dice_string = remove_spaces (lower (strip dice_string))
      in case match_dice dice_string of
           None \<Rightarrow> Inl (InvalidDiceNotation dice_string)
         | Some (g1, g2, modifier_str) \<Rightarrow>
             (let count = py_int g1;
                  sides = py_int g2;
                  modifier = (case modifier_str of None \<Rightarrow> 0 | Some m \<Rightarrow> py_int m)
              in roll sides count modifier g))"

text \<open>
  The notation grammar in the words of the specification, for comparison with
  \<open>match_dice\<close>: \<open>normalise\<close> names the preparation of the input, and
  \<open>dice_notation cs ss ms t\<close> says that \<open>t\<close> is the count \<open>cs\<close>, the letter d, the
  sides \<open>ss\<close> and the optional signed modifier \<open>ms\<close>.
\<close>

definition normalise :: "string \<Rightarrow> string" where
  "normalise s = remove_spaces (lower (strip s))"

definition dice_notation :: "string \<Rightarrow> string \<Rightarrow> string \<Rightarrow> string \<Rightarrow> bool" where
  "dice_notation cs ss ms t \<longleftrightarrow>
     t = cs @ ''d'' @ ss @ ms \<and>
     cs \<noteq> [] \<and> list_all is_digit cs \<and>
     ss \<noteq> [] \<and> list_all is_digit ss \<and>
     (case ms of
        [] \<Rightarrow> True
      | sg # ds \<Rightarrow> (sg = CHR ''+'' \<or> sg = CHR ''-'') \<and> ds \<noteq> [] \<and> list_all is_digit ds)"

section \<open>Character (app/core/character.py)\<close>

record character =
  name :: string
  character_class :: string
  level :: int
  experience :: int
  strength :: int
  dexterity :: int
  constitution :: int
  intelligence :: int
  wisdom :: int
  charisma :: int
  health :: int
  max_health :: int
  armor_class :: int
  inventory :: "string list"
  gold :: int
  conditions :: "string list"
  temporary_hp :: int

definition ability_scores :: "character \<Rightarrow> (string \<times> int) list" where
  "ability_scores c =
     [(''strength'', strength c),
      (''dexterity'', dexterity c),
      (''constitution'', constitution c),
      (''intelligence'', intelligence c),
      (''wisdom'', wisdom c),
      (''charisma'', charisma c)]"

definition get_modifier :: "character \<Rightarrow> string \<Rightarrow> error + int" where
  "get_modifier c ability =
     (let ability = lower ability
      in case map_of (ability_scores c) ability of
           None \<Rightarrow> Inl (UnknownAbility ability)
         | Some score \<Rightarrow> Inr ((score - 10) div 2))"

definition hit_dice :: "(string \<times> int) list" where
  "hit_dice =
     [(''fighter'', 10), (''paladin'', 10), (''ranger'', 10), (''barbarian'', 12),
      (''rogue'', 8), (''monk'', 8), (''bard'', 8), (''cleric'', 8), (''druid'', 8),
      (''warlock'', 8), (''wizard'', 6), (''sorcerer'', 6)]"

definition calculate_starting_hp :: "character \<Rightarrow> error + int" where
  "calculate_starting_hp c =
     (let base_hp = (case map_of hit_dice (lower (character_class c)) of
                       None \<Rightarrow> 8 | Some d \<Rightarrow> d)
      in case get_modifier c ''constitution'' of
           Inl e \<Rightarrow> Inl e
         | Inr con_modifier \<Rightarrow> Inr (max 1 (base_hp + con_modifier)))"

text \<open>
  \<open>__post_init__\<close> runs after the generated constructor has stored the supplied fields.
\<close>

definition post_init :: "character \<Rightarrow> error + character" where
  "post_init c =
     (case (if max_health c = 10
            then (case calculate_starting_hp c of
                    Inl e \<Rightarrow> Inl e
                  | Inr hp \<Rightarrow> Inr (c\<lparr>max_health := hp, health := hp\<rparr>))
            else Inr c) of
        Inl e \<Rightarrow> Inl e
      | Inr c1 \<Rightarrow>
          if armor_class c1 = 10
          then (case get_modifier c1 ''dexterity'' of
                  Inl e \<Rightarrow> Inl e
                | Inr m \<Rightarrow> Inr (c1\<lparr>armor_class := 10 + m\<rparr>))
          else Inr c1)"

record damage_report =
  damage_taken :: int
  temp_hp_lost :: int
  health_lost :: int
  current_health :: int
  unconscious :: bool

definition take_damage :: "character \<Rightarrow> int \<Rightarrow> character \<times> damage_report" where
  "take_damage c damage =
     (let temp_damage = min damage (temporary_hp c);
          c1 = c\<lparr>temporary_hp := temporary_hp c - temp_damage\<rparr>;
          remaining_damage = damage - temp_damage;
          actual_damage = min remaining_damage (health c1);
          c2 = c1\<lparr>health := health c1 - actual_damage\<rparr>
      in (c2, \<lparr>damage_taken = damage, temp_hp_lost = temp_damage,
                health_lost = actual_damage, current_health = health c2,
                unconscious = (health c2 \<le> 0)\<rparr>))"

record heal_report =
  healing_attempted :: int
  healing_applied :: int
  heal_current_health :: int
  fully_healed :: bool

definition heal :: "character \<Rightarrow> int \<Rightarrow> character \<times> heal_report" where
  "heal c healing =
     (let old_health = health c;
          c1 = c\<lparr>health := min (max_health c) (health c + healing)\<rparr>;
          actual_healing = health c1 - old_health
      in (c1, \<lparr>healing_attempted = healing, healing_applied = actual_healing,
                heal_current_health = health c1,
                fully_healed = (health c1 \<ge> max_health c1)\<rparr>))"

definition level_up :: "character \<Rightarrow> int \<Rightarrow> int \<Rightarrow> error + character" where
  "level_up c old_level new_level =
     (let levels_gained = new_level - old_level
      in case get_modifier c ''constitution'' of
           Inl e \<Rightarrow> Inl e
         | Inr m \<Rightarrow>
             (let hp_gain = levels_gained * (5 + m);
                  c1 = c\<lparr>max_health := max_health c + max 1 hp_gain\<rparr>
              in Inr (c1\<lparr>health := health c1 + hp_gain\<rparr>)))"

definition gain_experience :: "character \<Rightarrow> int \<Rightarrow> error + character" where
  "gain_experience c xp =
     (let c1 = c\<lparr>experience := experience c + xp\<rparr>;
          new_level = 1 + experience c1 div 1000
      in if new_level > level c1
         then (let old_level = level c1
               in level_up (c1\<lparr>level := new_level\<rparr>) old_level new_level)
         else Inr c1)"

text \<open>
  \<open>asdict\<close> returns a dictionary with exactly one entry per field, and \<open>cls(**data)\<close>
  passes each entry to the constructor: the dictionary is the record of the fields.
\<close>

type_synonym character_dict = character

definition to_dict :: "character \<Rightarrow> character_dict" where
  "to_dict c = c"

definition from_dict :: "character_dict \<Rightarrow> error + character" where
  "from_dict d = post_init d"

text \<open>
  The generated constructor with only the two required arguments: every other field
  takes its declared default, before \<open>__post_init__\<close> runs.
\<close>

definition new_character :: "string \<Rightarrow> string \<Rightarrow> character" where
  "new_character nm cls =
     \<lparr>name = nm, character_class = cls, level = 1, experience = 0,
      strength = 10, dexterity = 10, constitution = 10, intelligence = 10,
      wisdom = 10, charisma = 10, health = 10, max_health = 10, armor_class = 10,
      inventory = [''Basic weapon'', ''Starting armor'', ''Adventurer's pack''],
      gold = 100, conditions = [], temporary_hp = 0\<rparr>"

section \<open>Combatants and encounters (app/core/encounter.py)\<close>

datatype combatant_type = PLAYER | NPC | ENEMY

text \<open>
  A combatant may refer to the character it was made from. Characters are objects shared
  with the caller, so they live in a heap and the reference is an address.
\<close>

type_synonym heap = "nat \<Rightarrow> character"

record combatant =
  cb_name :: string
  combatant_type :: combatant_type
  cb_health :: int
  cb_max_health :: int
  cb_armor_class :: int
  initiative :: int
  cb_character :: "nat option"
  is_conscious :: bool
  cb_conditions :: "string list"

record combatant_damage_report =
  cb_damage_taken :: int
  cb_current_health :: int
  cb_unconscious :: bool

definition combatant_take_damage ::
    "combatant \<Rightarrow> int \<Rightarrow> combatant \<times> combatant_damage_report" where
  "combatant_take_damage c damage =
     (let actual_damage = min damage (cb_health c);
          c1 = c\<lparr>cb_health := cb_health c - actual_damage\<rparr>;
          c2 = (if cb_health c1 \<le> 0
                then (let c' = c1\<lparr>is_conscious := False\<rparr>
                      in if ''unconscious'' \<notin> set (cb_conditions c')
                         then c'\<lparr>cb_conditions := cb_conditions c' @ [''unconscious'']\<rparr>
                         else c')
                else c1)
      in (c2, \<lparr>cb_damage_taken = actual_damage, cb_current_health = cb_health c2,
                cb_unconscious = (\<not> is_conscious c2)\<rparr>))"

record combatant_heal_report =
  cb_healing_applied :: int
  cb_healed_health :: int

text \<open>\<open>list.remove\<close> deletes the first occurrence only, as \<open>remove1\<close> does.\<close>

definition combatant_heal ::
    "combatant \<Rightarrow> int \<Rightarrow> combatant \<times> combatant_heal_report" where
  "combatant_heal c healing =
     (let old_health = cb_health c;
          c1 = c\<lparr>cb_health := min (cb_max_health c) (cb_health c + healing)\<rparr>;
          actual_healing = cb_health c1 - old_health;
          c2 = (if cb_health c1 > 0 \<and> \<not> is_conscious c1
                then (let c' = c1\<lparr>is_conscious := True\<rparr>
                      in if ''unconscious'' \<in> set (cb_conditions c')
                         then c'\<lparr>cb_conditions := remove1 ''unconscious'' (cb_conditions c')\<rparr>
                         else c')
                else c1)
      in (c2, \<lparr>cb_healing_applied = actual_healing, cb_healed_health = cb_health c2\<rparr>))"

definition from_character :: "heap \<Rightarrow> nat \<Rightarrow> combatant" where
  "from_character h a =
     \<lparr>cb_name = name (h a), combatant_type = PLAYER, cb_health = health (h a),
      cb_max_health = max_health (h a), cb_armor_class = armor_class (h a),
      initiative = 0, cb_character = Some a, is_conscious = True,
      cb_conditions = conditions (h a)\<rparr>"

text \<open>
  The roster holds the combatant objects; the turn order refers to them, so it is a
  list of positions in the roster. Every registration adds an object of its own, as
  \<open>add_player\<close>, \<open>add_enemy\<close> and \<open>add_npc\<close> do.
\<close>

record encounter =
  enc_name :: string
  combatants :: "combatant list"
  turn_order :: "nat list"
  current_turn_index :: int
  round_number :: int
  is_active :: bool
  combat_log :: "string list"

definition new_encounter :: "string \<Rightarrow> encounter" where
  "new_encounter nm =
     \<lparr>enc_name = nm, combatants = [], turn_order = [], current_turn_index = 0,
      round_number = 0, is_active = False, combat_log = []\<rparr>"

definition add_combatant :: "encounter \<Rightarrow> combatant \<Rightarrow> encounter" where
  "add_combatant e c = e\<lparr>combatants := combatants e @ [c]\<rparr>"

definition add_player :: "heap \<Rightarrow> encounter \<Rightarrow> nat \<Rightarrow> encounter" where
  "add_player h e a = add_combatant e (from_character h a)"

definition add_enemy :: "encounter \<Rightarrow> string \<Rightarrow> int \<Rightarrow> int \<Rightarrow> encounter" where
  "add_enemy e nm hp ac =
     add_combatant e
       \<lparr>cb_name = nm, combatant_type = ENEMY, cb_health = hp, cb_max_health = hp,
        cb_armor_class = ac, initiative = 0, cb_character = None, is_conscious = True,
        cb_conditions = []\<rparr>"

definition add_npc :: "encounter \<Rightarrow> string \<Rightarrow> int \<Rightarrow> int \<Rightarrow> encounter" where
  "add_npc e nm hp ac =
     add_combatant e
       \<lparr>cb_name = nm, combatant_type = NPC, cb_health = hp, cb_max_health = hp,
        cb_armor_class = ac, initiative = 0, cb_character = None, is_conscious = True,
        cb_conditions = []\<rparr>"

definition log_action :: "encounter \<Rightarrow> string \<Rightarrow> encounter" where
  "log_action e action =
     e\<lparr>combat_log := combat_log e @ [''[Round '' @ str (round_number e) @ ''] '' @ action]\<rparr>"

text \<open>
  \<open>sorted(xs, key=k, reverse=True)\<close>: Python's sort is stable, and with
  \<open>reverse=True\<close> elements with equal keys still keep their original order. That is
  the stable sort by the negated key.
\<close>

definition sorted_reverse :: "('a \<Rightarrow> int) \<Rightarrow> 'a list \<Rightarrow> 'a list" where
  "sorted_reverse key xs = sort_key (\<lambda>x. - key x) xs"

text \<open>The loop of \<open>roll_initiative\<close> over the roster, by position.\<close>

fun roll_initiative_loop :: "nat list \<Rightarrow> encounter \<Rightarrow> rng \<Rightarrow> error + (encounter \<times> rng)" where
  "roll_initiative_loop [] e g = Inr (e, g)"
| "roll_initiative_loop (i # rest) e g =
     (case d20 0 g of
        Inl err \<Rightarrow> Inl err
      | Inr (initiative_roll, g1) \<Rightarrow>
          (let c = (combatants e ! i)\<lparr>initiative := total initiative_roll\<rparr>;
               e1 = e\<lparr>combatants := (combatants e)[i := c]\<rparr>;
               e2 = log_action e1
                      (cb_name c @ '' rolled '' @ str (initiative c) @ '' for initiative'')
           in roll_initiative_loop rest e2 g1))"

definition roll_initiative :: "encounter \<Rightarrow> rng \<Rightarrow> error + (encounter \<times> rng)" where
  "roll_initiative e g =
     (case roll_initiative_loop [0..<length (combatants e)] e g of
        Inl err \<Rightarrow> Inl err
      | Inr (e1, g1) \<Rightarrow>
          (let e2 = e1\<lparr>turn_order :=
                       sorted_reverse (\<lambda>i. initiative (combatants e1 ! i))
                         [0..<length (combatants e1)]\<rparr>;
               e3 = e2\<lparr>current_turn_index := 0\<rparr>;
               initiative_order =
                 join '', ''
                   (map (\<lambda>i. cb_name (combatants e3 ! i) @ '' (''
                               @ str (initiative (combatants e3 ! i)) @ '')'')
                      (turn_order e3))
           in Inr (log_action e3 (''Initiative order: '' @ initiative_order), g1)))"

definition start_combat :: "encounter \<Rightarrow> rng \<Rightarrow> error + (encounter \<times> rng)" where
  "start_combat e g =
     (if combatants e = [] then Inl NoCombatants
      else (case roll_initiative e g of
              Inl err \<Rightarrow> Inl err
            | Inr (e1, g1) \<Rightarrow>
                (let e2 = e1\<lparr>is_active := True\<rparr>;
                     e3 = e2\<lparr>round_number := 1\<rparr>
                 in Inr (log_action e3 (''Combat started: '' @ enc_name e3), g1))))"

definition should_end_combat :: "encounter \<Rightarrow> bool" where
  "should_end_combat e =
     (let conscious_players =
            filter (\<lambda>c. combatant_type c = PLAYER \<and> is_conscious c) (combatants e);
          conscious_enemies =
            filter (\<lambda>c. combatant_type c = ENEMY \<and> is_conscious c) (combatants e)
      in length conscious_players = 0 \<or> length conscious_enemies = 0)"

text \<open>The loop of \<open>end_combat\<close> that copies health and conditions back.\<close>

fun sync_characters :: "combatant list \<Rightarrow> heap \<Rightarrow> heap" where
  "sync_characters [] h = h"
| "sync_characters (c # cs) h =
     sync_characters cs
       (case cb_character c of
          None \<Rightarrow> h
        | Some a \<Rightarrow> h(a := (h a)\<lparr>health := cb_health c, conditions := cb_conditions c\<rparr>))"

definition end_combat :: "heap \<Rightarrow> encounter \<Rightarrow> heap \<times> encounter" where
  "end_combat h e =
     (let e1 = e\<lparr>is_active := False\<rparr>;
          conscious_players =
            filter (\<lambda>c. combatant_type c = PLAYER \<and> is_conscious c) (combatants e1);
          conscious_enemies =
            filter (\<lambda>c. combatant_type c = ENEMY \<and> is_conscious c) (combatants e1);
          e2 = (if length conscious_players > 0 \<and> length conscious_enemies = 0
                then log_action e1 ''Victory! All enemies have been defeated!''
                else if length conscious_players = 0
                then log_action e1 ''Defeat! All players have fallen unconscious!''
                else log_action e1 ''Combat ended!'')
      in (sync_characters (combatants e2) h, e2))"

definition next_turn :: "heap \<Rightarrow> encounter \<Rightarrow> heap \<times> encounter" where
  "next_turn h e =
     (if \<not> is_active e then (h, e)
      else (let e1 = e\<lparr>current_turn_index := current_turn_index e + 1\<rparr>
            in if current_turn_index e1 \<ge> int (length (turn_order e1))
               then (let e2 = e1\<lparr>current_turn_index := 0\<rparr>;
                         e3 = e2\<lparr>round_number := round_number e2 + 1\<rparr>;
                         e4 = log_action e3 (''Round '' @ str (round_number e3) @ '' begins'');
                         e5 = e4\<lparr>turn_order :=
                                   filter (\<lambda>i. is_conscious (combatants e4 ! i))
                                     (turn_order e4)\<rparr>
                     in if should_end_combat e5 then end_combat h e5 else (h, e5))
               else (h, e1)))"

text \<open>Calling \<open>next_turn\<close> a number of times in a row.\<close>

fun next_turns :: "nat \<Rightarrow> heap \<Rightarrow> encounter \<Rightarrow> heap \<times> encounter" where
  "next_turns 0 h e = (h, e)"
| "next_turns (Suc k) h e = (case next_turn h e of (h1, e1) \<Rightarrow> next_turns k h1 e1)"

text \<open>
  The link between the consciousness flag, the \<open>unconscious\<close> condition and health
  that \<open>take_damage\<close> and \<open>heal\<close> maintain.
\<close>

definition consciousness_tracks_health :: "combatant \<Rightarrow> bool" where
  "consciousness_tracks_health c \<longleftrightarrow>
     (is_conscious c \<longleftrightarrow> cb_health c > 0) \<and>
     (''unconscious'' \<in> set (cb_conditions c) \<longleftrightarrow> cb_health c \<le> 0)"

section \<open>Sessions (app/core/session.py)\<close>

text \<open>
  The metadata of an event is a dictionary with string keys whose values are written by
  \<open>json.dump\<close> and read back by \<open>json.load\<close>: values of the JSON data model.
  Floating-point numbers are left out.
\<close>

datatype json =
    JNull
  | JBool bool
  | JInt int
  | JStr string
  | JArr "json list"
  | JObj "(string \<times> json) list"

record story_event =
  timestamp :: string
  event_type :: string
  content :: string
  metadata :: "(string \<times> json) list"

record game_session =
  session_id :: string
  sessions_dir :: string
  session_file :: string
  story_history :: "story_event list"
  current_location :: string
  active_npcs :: "string list"
  current_scene :: string
  session_notes :: "string list"
  created_at :: string
  last_saved :: "string option"
  turn_count :: int
  in_combat :: bool
  current_encounter :: "string option"

text \<open>
  What \<open>json.load\<close> returns for a session file: a dictionary in which any key may be
  missing. A key that is present holds a value of the type \<open>save_session\<close> writes;
  \<open>null\<close> and a missing key are both \<open>None\<close> for the two nullable entries, which
  \<open>load_session\<close> reads with \<open>get\<close> and no default.
\<close>

record event_data =
  ed_timestamp :: "string option"
  ed_event_type :: "string option"
  ed_content :: "string option"
  ed_metadata :: "(string \<times> json) list option"

record session_data =
  sd_session_id :: "string option"
  sd_created_at :: "string option"
  sd_last_saved :: "string option"
  sd_turn_count :: "int option"
  sd_current_location :: "string option"
  sd_active_npcs :: "string list option"
  sd_current_scene :: "string option"
  sd_session_notes :: "string list option"
  sd_in_combat :: "bool option"
  sd_current_encounter :: "string option"
  sd_story_history :: "event_data list option"

text \<open>
  A file either holds text that \<open>json.load\<close> cannot turn into such a dictionary, or the
  dictionary that \<open>json.dump\<close> wrote. The environment of a session is the files by
  path, the paths that can be opened for writing, and the readings of the clock still
  to come.
\<close>

datatype file_content = Corrupt | Parsed session_data

record world =
  files :: "string \<rightharpoonup> file_content"
  writable :: "string \<Rightarrow> bool"
  clock :: "nat \<Rightarrow> string"

text \<open>\<open>datetime.now().isoformat()\<close>\<close>

definition now :: "world \<Rightarrow> string \<times> world" where
  "now w = (clock w 0, w\<lparr>clock := \<lambda>i. clock w (Suc i)\<rparr>)"

text \<open>\<open>os.path.join\<close> of two components.\<close>

definition path_join :: "string \<Rightarrow> string \<Rightarrow> string" where
  "path_join a b =
     (if b \<noteq> [] \<and> hd b = CHR ''/'' then b
      else if a = [] \<or> last a = CHR ''/'' then a @ b
      else a @ ''/'' @ b)"

definition create :: "string \<Rightarrow> string \<Rightarrow> (string \<times> json) list option \<Rightarrow> world
    \<Rightarrow> story_event \<times> world" where
  "create et text md w =
     (case now w of
        (t, w1) \<Rightarrow>
          (\<lparr>timestamp = t, event_type = et, content = text,
             metadata = (case md of None \<Rightarrow> [] | Some m \<Rightarrow> m)\<rparr>, w1))"

definition new_session :: "string \<Rightarrow> string \<Rightarrow> world \<Rightarrow> game_session \<times> world" where
  "new_session sid dir w =
     (case now w of
        (t, w1) \<Rightarrow>
          (\<lparr>session_id = sid, sessions_dir = dir,
             session_file = path_join dir (sid @ ''.json''),
             story_history = [], current_location = ''Starting Village'',
             active_npcs = [], current_scene = [], session_notes = [],
             created_at = t, last_saved = None, turn_count = 0, in_combat = False,
             current_encounter = None\<rparr>, w1))"

text \<open>\<open>asdict(event)\<close>\<close>

definition event_asdict :: "story_event \<Rightarrow> event_data" where
  "event_asdict ev =
     \<lparr>ed_timestamp = Some (timestamp ev), ed_event_type = Some (event_type ev),
      ed_content = Some (content ev), ed_metadata = Some (metadata ev)\<rparr>"

definition save_session :: "game_session \<Rightarrow> world \<Rightarrow> bool \<times> game_session \<times> world" where
  "save_session s w =
     (case now w of
        (t, w1) \<Rightarrow>
          (let session_data =
                 \<lparr>sd_session_id = Some (session_id s),
                  sd_created_at = Some (created_at s),
                  sd_last_saved = Some t,
                  sd_turn_count = Some (turn_count s),
                  sd_current_location = Some (current_location s),
                  sd_active_npcs = Some (active_npcs s),
                  sd_current_scene = Some (current_scene s),
                  sd_session_notes = Some (session_notes s),
                  sd_in_combat = Some (in_combat s),
                  sd_current_encounter = current_encounter s,
                  sd_story_history = Some (map event_asdict (story_history s))\<rparr>
           in if writable w1 (session_file s)
              then (True, s\<lparr>last_saved := sd_last_saved session_data\<rparr>,
                    w1\<lparr>files := (files w1)(session_file s \<mapsto> Parsed session_data)\<rparr>)
              else (False, s, w1)))"

definition load_event :: "event_data \<Rightarrow> story_event" where
  "load_event event_data =
     \<lparr>timestamp = (case ed_timestamp event_data of None \<Rightarrow> [] | Some t \<Rightarrow> t),
      event_type = (case ed_event_type event_data of None \<Rightarrow> ''unknown'' | Some t \<Rightarrow> t),
      content = (case ed_content event_data of None \<Rightarrow> [] | Some t \<Rightarrow> t),
      metadata = (case ed_metadata event_data of None \<Rightarrow> [] | Some m \<Rightarrow> m)\<rparr>"

definition load_session :: "game_session \<Rightarrow> world \<Rightarrow> bool \<times> game_session" where
  "load_session s w =
     (case files w (session_file s) of
        None \<Rightarrow> (False, s)
      | Some Corrupt \<Rightarrow> (False, s)
      | Some (Parsed session_data) \<Rightarrow>
          (True,
           s\<lparr>created_at :=
                (case sd_created_at session_data of None \<Rightarrow> created_at s | Some t \<Rightarrow> t),
              last_saved := sd_last_saved session_data,
              turn_count := (case sd_turn_count session_data of None \<Rightarrow> 0 | Some n \<Rightarrow> n),
              current_location :=
                (case sd_current_location session_data of
                   None \<Rightarrow> ''Starting Village'' | Some l \<Rightarrow> l),
              active_npcs :=
                (case sd_active_npcs session_data of None \<Rightarrow> [] | Some l \<Rightarrow> l),
              current_scene :=
                (case sd_current_scene session_data of None \<Rightarrow> [] | Some l \<Rightarrow> l),
              session_notes :=
                (case sd_session_notes session_data of None \<Rightarrow> [] | Some l \<Rightarrow> l),
              in_combat :=
                (case sd_in_combat session_data of None \<Rightarrow> False | Some b \<Rightarrow> b),
              current_encounter := sd_current_encounter session_data,
              story_history :=
                map load_event
                  (case sd_story_history session_data of None \<Rightarrow> [] | Some l \<Rightarrow> l)\<rparr>))"

definition add_story_event ::
    "game_session \<Rightarrow> string \<Rightarrow> string \<Rightarrow> (string \<times> json) list option \<Rightarrow> world
     \<Rightarrow> game_session \<times> world" where
  "add_story_event s et text md w =
     (case create et text md w of
        (event, w1) \<Rightarrow>
          (let s1 = s\<lparr>story_history := story_history s @ [event]\<rparr>;
               s2 = s1\<lparr>turn_count := turn_count s1 + 1\<rparr>
           in if turn_count s2 mod 3 = 0
              then (case save_session s2 w1 of (ok, s3, w2) \<Rightarrow> (s3, w2))
              else (s2, w1)))"

text \<open>The slice \<open>xs[k:]\<close>: a negative start counts from the end and stops at the front.\<close>

definition slice_from :: "'a list \<Rightarrow> int \<Rightarrow> 'a list" where
  "slice_from xs k =
     (let n = int (length xs);
          start = (if k < 0 then max 0 (k + n) else k)
      in drop (nat start) xs)"

text \<open>The line one event adds to the context; an event of another kind adds none.\<close>

definition context_line :: "story_event \<Rightarrow> string list" where
  "context_line event =
     (if event_type event = ''dm_response'' then [''DM: '' @ content event]
      else if event_type event = ''player_action'' then [''Player: '' @ content event]
      else if event_type event = ''dice_roll'' then [''Roll: '' @ content event]
      else if event_type event = ''system'' then [''System: '' @ content event]
      else [])"

definition get_context :: "game_session \<Rightarrow> int \<Rightarrow> string" where
  "get_context s last_n =
     (if story_history s = [] then []
      else (let recent_events = slice_from (story_history s) (- last_n);
                context_lines = [];
                context_lines =
                  (if current_location s \<noteq> []
                   then context_lines @ [''Current Location: '' @ current_location s]
                   else context_lines);
                context_lines =
                  (if current_scene s \<noteq> []
                   then context_lines @ [''Current Scene: '' @ current_scene s]
                   else context_lines);
                context_lines =
                  (if active_npcs s \<noteq> []
                   then context_lines @ [''Active NPCs: '' @ join '', '' (active_npcs s)]
                   else context_lines);
                context_lines =
                  (if in_combat s
                   then context_lines @ [''Status: Currently in combat'']
                   else context_lines);
                context_lines = context_lines @ [[]];
                context_lines = context_lines @ concat (map context_line recent_events)
            in join [CHR 0x0A] context_lines))"

text \<open>
  Saving a session and loading the file into a new session object made with the same
  identifier and directory, as the test \<open>test_save_and_load_session\<close> does. The result
  is what \<open>save_session\<close> returned, what \<open>load_session\<close> returned, and the loaded
  session.
\<close>

definition save_then_load :: "game_session \<Rightarrow> world \<Rightarrow> bool \<times> bool \<times> game_session" where
  "save_then_load s w =
     (case save_session s w of
        (saved, s1, w1) \<Rightarrow>
          (case new_session (session_id s) (sessions_dir s) w1 of
             (fresh, w2) \<Rightarrow>
               (case load_session fresh w2 of (loaded, l) \<Rightarrow> (saved, loaded, l))))"

section \<open>Sample values\<close>

text \<open>
  Concrete characters, encounters and sessions on which the theorems below are
  instantiated.
\<close>

definition shielded_fighter :: character where
  "shielded_fighter = (new_character ''Aria'' ''Fighter'')\<lparr>temporary_hp := 3\<rparr>"

definition wounded_fighter :: character where
  "wounded_fighter = (new_character ''Aria'' ''Fighter'')\<lparr>health := 3\<rparr>"

definition veteran :: character where
  "veteran = (new_character ''Borin'' ''Fighter'')\<lparr>level := 3\<rparr>"

definition apprentice :: character where
  "apprentice = (new_character ''Mira'' ''Wizard'')\<lparr>constitution := 14\<rparr>"

definition tied_rolls :: rng where
  "tied_rolls = (\<lambda>i. if i = 0 then 11 else if i = 1 then 4 else 11)"

definition party :: heap where
  "party = (\<lambda>a. new_character ''Aria'' ''Fighter'')"

definition ambush :: encounter where
  "ambush = add_enemy (add_enemy (add_player party (new_encounter ''Ambush'') 0)
                         ''Goblin'' 7 15) ''Orc'' 15 13"

definition goblin :: combatant where
  "goblin = combatants ambush ! 1"

definition downed_goblin :: combatant where
  "downed_goblin = fst (combatant_take_damage goblin 9)"

definition second_turn :: encounter where
  "second_turn =
     ambush\<lparr>combatants := (combatants ambush)[1 := downed_goblin],
            turn_order := [2, 0, 1], round_number := 1, is_active := True\<rparr>"

definition fallen_party :: heap where
  "fallen_party = (\<lambda>a. (new_character ''Aria'' ''Fighter'')\<lparr>health := 0\<rparr>)"

definition rematch :: encounter where
  "rematch = add_enemy (add_player fallen_party (new_encounter ''Random Encounter'') 0)
               ''Hostile Goblin'' 7 15"

definition rematch_started :: encounter where
  "rematch_started =
     (case start_combat rematch tied_rolls of Inl err \<Rightarrow> rematch | Inr (e, g) \<Rightarrow> e)"

definition camp_world :: world where
  "camp_world =
     \<lparr>files = Map.empty, writable = (\<lambda>p. True), clock = (\<lambda>i. ''t'' @ str (int i))\<rparr>"

definition five_events :: "game_session \<times> world" where
  "five_events =
     (case new_session ''camp'' ''sessions'' camp_world of (s0, w0) \<Rightarrow>
      case add_story_event s0 ''player_action'' ''I search the room'' None w0 of (s1, w1) \<Rightarrow>
      case add_story_event s1 ''dice_roll'' ''1d20: 15'' (Some [(''total'', JInt 15)]) w1
        of (s2, w2) \<Rightarrow>
      case add_story_event s2 ''dm_response'' ''You find a hidden door!''
             (Some [(''personality'', JStr ''serious'')]) w2 of (s3, w3) \<Rightarrow>
      case add_story_event s3 ''system'' ''Combat started: Goblin Fight'' None w3
        of (s4, w4) \<Rightarrow>
      case add_story_event s4 ''player_action'' ''I attack the goblin'' None w4
        of (s5, w5) \<Rightarrow>
        (s5\<lparr>current_location := ''Forest''\<rparr>, w5))"

section \<open>Properties of Character\<close>

lemma lower_constitution: "lower ''constitution'' = ''constitution''"
  by (simp add: lower_def lower_char_def lower_table_def)

lemma lower_dexterity: "lower ''dexterity'' = ''dexterity''"
  by (simp add: lower_def lower_char_def lower_table_def)

lemma get_modifier_constitution:
  "get_modifier c ''constitution'' = Inr ((constitution c - 10) div 2)"
  by (simp add: get_modifier_def lower_constitution ability_scores_def)

lemma get_modifier_dexterity:
  "get_modifier c ''dexterity'' = Inr ((dexterity c - 10) div 2)"
  by (simp add: get_modifier_def lower_dexterity ability_scores_def)

lemma prod_ge_one: "(1::int) \<le> k \<Longrightarrow> 1 \<le> g \<Longrightarrow> 1 \<le> k * g"
  using mult_mono [of 1 k 1 g] by simp

lemma level_up_eq:
  "level_up c old new =
     Inr (c\<lparr>max_health := max_health c + max 1 ((new - old) * (5 + (constitution c - 10) div 2)),
            health := health c + (new - old) * (5 + (constitution c - 10) div 2)\<rparr>)"
  by (simp add: level_up_def get_modifier_constitution Let_def)

subsection \<open>Damage\<close>

text \<open>
  Claim C1. For a character whose health is not negative (the invariant of the data
  model) and a damage amount \<open>\<ge> 0\<close>, \<open>take_damage\<close> leaves health \<open>\<ge> 0\<close>;
  temporary hit points absorb first: damage up to the temporary hit points leaves
  health untouched, and larger damage uses all of them up before the remainder reaches
  health; and \<open>temp_hp_lost + health_lost = min damage (temporary_hp + health)\<close>.
\<close>

theorem take_damage_floor_and_split:
  assumes "0 \<le> damage" and "0 \<le> health c"
  shows "0 \<le> health (fst (take_damage c damage)) \<and>
     (damage \<le> temporary_hp c \<longrightarrow>
        temporary_hp (fst (take_damage c damage)) = temporary_hp c - damage \<and>
        health (fst (take_damage c damage)) = health c) \<and>
     (temporary_hp c < damage \<longrightarrow>
        temporary_hp (fst (take_damage c damage)) = 0 \<and>
        health_lost (snd (take_damage c damage)) = min (damage - temporary_hp c) (health c)) \<and>
     temp_hp_lost (snd (take_damage c damage)) + health_lost (snd (take_damage c damage))
       = min damage (temporary_hp c + health c)"
  using assms by (auto simp: take_damage_def Let_def min_def)

text \<open>Seven points of damage on a fighter with 3 temporary and 10 true hit points.\<close>

theorem take_damage_floor_and_split_witness:
  "(0::int) \<le> 7 \<and> 0 \<le> health shielded_fighter \<and>
   \<not> 7 \<le> temporary_hp shielded_fighter \<and> temporary_hp shielded_fighter < 7 \<and>
   temporary_hp (fst (take_damage shielded_fighter 7)) = 0 \<and>
   health (fst (take_damage shielded_fighter 7)) = 6 \<and>
   temp_hp_lost (snd (take_damage shielded_fighter 7))
     + health_lost (snd (take_damage shielded_fighter 7)) = min 7 (3 + 10)"
  using take_damage_floor_and_split [of 7 shielded_fighter]
  by (simp add: shielded_fighter_def new_character_def take_damage_def Let_def)

subsection \<open>The health invariant\<close>

text \<open>
  Claim C8, as stated, fails: \<open>heal\<close> clamps health from above only, so a negative
  amount takes a character that satisfies \<open>0 \<le> health \<le> max_health\<close> below zero.
\<close>

theorem heal_negative_breaks_invariant:
  "0 \<le> health wounded_fighter \<and> health wounded_fighter \<le> max_health wounded_fighter \<and>
   health (fst (heal wounded_fighter (- 5))) = - 2"
  by (simp add: wounded_fighter_def new_character_def heal_def Let_def)

text \<open>
  Claim C8, amended. From a state with \<open>0 \<le> health \<le> max_health\<close>:
  \<open>take_damage\<close> keeps the invariant for every amount; \<open>heal\<close> keeps it whenever
  \<open>health + healing \<ge> 0\<close> (so for every healing \<open>\<ge> 0\<close>); \<open>gain_experience\<close>
  keeps it whenever the constitution score is not negative (then the hit points gained
  on a level-up are not negative).
\<close>

theorem health_invariant_preserved:
  assumes "0 \<le> health c" and "health c \<le> max_health c"
  shows "(0 \<le> health (fst (take_damage c d)) \<and>
          health (fst (take_damage c d)) \<le> max_health (fst (take_damage c d))) \<and>
     (0 \<le> health c + h \<longrightarrow>
        0 \<le> health (fst (heal c h)) \<and>
        health (fst (heal c h)) \<le> max_health (fst (heal c h))) \<and>
     (0 \<le> constitution c \<longrightarrow>
        (\<exists>c'. gain_experience c xp = Inr c' \<and>
              0 \<le> health c' \<and> health c' \<le> max_health c'))"
proof (intro conjI impI)
  show "0 \<le> health (fst (take_damage c d))"
    by (simp add: take_damage_def Let_def)
  show "health (fst (take_damage c d)) \<le> max_health (fst (take_damage c d))"
    using assms by (simp add: take_damage_def Let_def min_def)
  show "0 \<le> health (fst (heal c h))" if "0 \<le> health c + h"
    using that assms by (simp add: heal_def Let_def)
  show "health (fst (heal c h)) \<le> max_health (fst (heal c h))"
    by (simp add: heal_def Let_def)
  show "\<exists>c'. gain_experience c xp = Inr c' \<and> 0 \<le> health c' \<and> health c' \<le> max_health c'"
    if con: "0 \<le> constitution c"
  proof (cases "1 + (experience c + xp) div 1000 > level c")
    case False
    then show ?thesis using assms by (simp add: gain_experience_def Let_def)
  next
    case True
    let ?g = "(1 + (experience c + xp) div 1000 - level c) * (5 + (constitution c - 10) div 2)"
    have "0 \<le> 5 + (constitution c - 10) div 2" using con by linarith
    then have "0 \<le> ?g" using True by simp
    then show ?thesis using True assms
      by (simp add: gain_experience_def level_up_eq Let_def)
  qed
qed

text \<open>
  A wounded fighter (health 3 of 10) takes 5 damage, is healed by 4, gains 2500
  experience.
\<close>

theorem health_invariant_preserved_witness:
  "0 \<le> health wounded_fighter \<and> health wounded_fighter \<le> max_health wounded_fighter \<and>
   0 \<le> health wounded_fighter + 4 \<and> 0 \<le> constitution wounded_fighter \<and>
   health (fst (take_damage wounded_fighter 5)) = 0 \<and>
   health (fst (heal wounded_fighter 4)) = 7 \<and>
   (\<exists>c'. gain_experience wounded_fighter 2500 = Inr c' \<and>
         0 \<le> health c' \<and> health c' \<le> max_health c')"
  using health_invariant_preserved [of wounded_fighter 5 4 2500]
  by (simp add: wounded_fighter_def new_character_def take_damage_def heal_def Let_def)

subsection \<open>Experience and levels\<close>

text \<open>
  Claim C4, as stated, fails: the level is assigned only when the recomputed level is
  greater than the current one. A character created at level 3 with no experience who
  gains 500 points stays at level 3, while \<open>1 + 500 div 1000 = 1\<close>.
\<close>

theorem gain_experience_keeps_higher_level:
  "gain_experience veteran 500 = Inr (veteran\<lparr>experience := 500\<rparr>) \<and>
   level (veteran\<lparr>experience := 500\<rparr>)
     \<noteq> 1 + experience (veteran\<lparr>experience := 500\<rparr>) div 1000"
  by (simp add: veteran_def new_character_def gain_experience_def Let_def)

text \<open>
  Claim C4, amended. \<open>gain_experience\<close> always succeeds and adds the points to
  \<open>experience\<close>; the level becomes the larger of the current level and
  \<open>1 + experience div 1000\<close>, so it never goes down; when no level is gained, health and
  max_health are unchanged; when levels are gained and \<open>5 + constitution modifier\<close> is at
  least 1, max_health and health both grow by
  \<open>max 1 (5 + constitution modifier)\<close> for each level gained, health not being capped by
  the old maximum.
\<close>

theorem gain_experience_levels:
  "\<exists>c'. gain_experience c xp = Inr c' \<and>
     experience c' = experience c + xp \<and>
     level c' = max (level c) (1 + (experience c + xp) div 1000) \<and>
     (level c' = level c \<longrightarrow> max_health c' = max_health c \<and> health c' = health c) \<and>
     (level c < level c' \<and> 1 \<le> 5 + (constitution c - 10) div 2 \<longrightarrow>
        max_health c' = max_health c
          + (level c' - level c) * max 1 (5 + (constitution c - 10) div 2) \<and>
        health c' = health c
          + (level c' - level c) * max 1 (5 + (constitution c - 10) div 2))"
proof (cases "1 + (experience c + xp) div 1000 > level c")
  case False
  then show ?thesis by (simp add: gain_experience_def Let_def)
next
  case True
  let ?m = "(constitution c - 10) div 2"
  let ?k = "1 + (experience c + xp) div 1000 - level c"
  have k: "1 \<le> ?k" using True by simp
  have big: "1 \<le> 5 + ?m \<Longrightarrow> max 1 (?k * (5 + ?m)) = ?k * (5 + ?m)"
    using prod_ge_one [OF k] by simp
  show ?thesis using True big
    by (simp add: gain_experience_def level_up_eq Let_def)
qed

text \<open>
  A wizard with constitution 14 (modifier 2) at full health 10 of 10 gains 2300
  experience: two levels, 7 hit points each.
\<close>

theorem gain_experience_levels_witness:
  "\<exists>c'. gain_experience (apprentice\<lparr>experience := 100\<rparr>) 2300 = Inr c' \<and>
     experience c' = 2400 \<and> level c' = 3 \<and>
     level (apprentice\<lparr>experience := 100\<rparr>) < level c' \<and>
     1 \<le> 5 + (constitution (apprentice\<lparr>experience := 100\<rparr>) - 10) div 2 \<and>
     max_health c' = 24 \<and> health c' = 24"
  using gain_experience_levels [of "apprentice\<lparr>experience := 100\<rparr>" 2300]
  by (auto simp: apprentice_def new_character_def)

subsection \<open>Construction and the dictionary round trip\<close>

text \<open>
  Claim C9. \<open>from_dict\<close> is the constructor applied to the dictionary's entries.
  When the supplied max_health is 10, construction replaces max_health and health by
  \<open>max 1 (hit die of the class + constitution modifier)\<close>, the hit die being 8 for an
  unknown class; when the supplied armor_class is 10, it becomes
  \<open>10 + dexterity modifier\<close>. Hence some character is not reproduced by
  \<open>from_dict (to_dict c)\<close>.
\<close>

theorem from_dict_recomputes_sentinels:
  "from_dict d = post_init d \<and>
   (max_health d = 10 \<longrightarrow>
      (\<exists>c. post_init d = Inr c \<and>
           max_health c = max 1 ((case map_of hit_dice (lower (character_class d)) of
                                    None \<Rightarrow> 8 | Some die \<Rightarrow> die)
                                 + (constitution d - 10) div 2) \<and>
           health c = max_health c)) \<and>
   (armor_class d = 10 \<longrightarrow>
      (\<exists>c. post_init d = Inr c \<and> armor_class c = 10 + (dexterity d - 10) div 2)) \<and>
   (\<exists>c. from_dict (to_dict c) \<noteq> Inr c)"
proof (intro conjI impI)
  show "from_dict d = post_init d" by (simp add: from_dict_def)
  show "\<exists>c. post_init d = Inr c \<and>
           max_health c = max 1 ((case map_of hit_dice (lower (character_class d)) of
                                    None \<Rightarrow> 8 | Some die \<Rightarrow> die)
                                 + (constitution d - 10) div 2) \<and>
           health c = max_health c"
    if "max_health d = 10"
    using that
    by (simp add: post_init_def calculate_starting_hp_def get_modifier_constitution
        get_modifier_dexterity Let_def)
  show "\<exists>c. post_init d = Inr c \<and> armor_class c = 10 + (dexterity d - 10) div 2"
    if "armor_class d = 10"
    using that
    by (simp add: post_init_def calculate_starting_hp_def get_modifier_constitution
        get_modifier_dexterity Let_def)
  have "health wounded_fighter = 3"
    by (simp add: wounded_fighter_def new_character_def)
  moreover have "\<exists>c. from_dict (to_dict wounded_fighter) = Inr c \<and> health c = max_health c"
    by (simp add: from_dict_def to_dict_def post_init_def calculate_starting_hp_def
        get_modifier_constitution get_modifier_dexterity Let_def wounded_fighter_def
        new_character_def)
  moreover have "max_health wounded_fighter = 10"
    by (simp add: wounded_fighter_def new_character_def)
  ultimately have "from_dict (to_dict wounded_fighter) \<noteq> Inr wounded_fighter"
    by auto
  then show "\<exists>c. from_dict (to_dict c) \<noteq> Inr c" ..
qed

text \<open>
  A wizard with constitution 14 and the default fields gets 6 + 2 hit points; the
  wounded fighter comes back from its dictionary at full health.
\<close>

theorem from_dict_recomputes_sentinels_witness:
  "max_health apprentice = 10 \<and> armor_class apprentice = 10 \<and>
   (\<exists>c. post_init apprentice = Inr c \<and> max_health c = 8 \<and> health c = 8 \<and>
        armor_class c = 10) \<and>
   (\<exists>c. from_dict (to_dict c) \<noteq> Inr c)"
  using from_dict_recomputes_sentinels [of apprentice]
  by (auto simp: apprentice_def new_character_def hit_dice_def lower_def lower_char_def
      lower_table_def)

section \<open>Properties of the dice\<close>

subsection \<open>Rolling\<close>

lemma randint_range: "1 \<le> b \<Longrightarrow> 1 \<le> fst (randint 1 b g) \<and> fst (randint 1 b g) \<le> b"
proof -
  assume b: "1 \<le> b"
  then have "0 < nat b" by simp
  then have "g 0 mod nat b < nat b" by simp
  then have "int (g 0 mod nat b) < int (nat b)" by (simp only: of_nat_less_iff)
  then show ?thesis using b by (simp add: randint_def)
qed

lemma randints_props:
  "1 \<le> b \<Longrightarrow> length (fst (randints b n g)) = n \<and>
     (\<forall>x \<in> set (fst (randints b n g)). 1 \<le> x \<and> x \<le> b)"
proof (induction n arbitrary: g)
  case 0
  then show ?case by simp
next
  case (Suc n)
  obtain r g1 where r: "randint 1 b g = (r, g1)" by (cases "randint 1 b g")
  obtain rs g2 where rs: "randints b n g1 = (rs, g2)" by (cases "randints b n g1")
  have "1 \<le> r \<and> r \<le> b" using randint_range [OF Suc.prems, of g] r by simp
  moreover have "length rs = n \<and> (\<forall>x \<in> set rs. 1 \<le> x \<and> x \<le> b)"
    using Suc.IH [OF Suc.prems, of g1] rs by simp
  ultimately show ?case using r rs by simp
qed

lemma roll_ok:
  assumes "1 \<le> s" and "1 \<le> c"
  shows "\<exists>r g'. roll s c m g = Inr (r, g') \<and> length (rolls r) = nat c \<and>
           (\<forall>x \<in> set (rolls r). 1 \<le> x \<and> x \<le> s) \<and>
           modifier r = m \<and> total r = sum_list (rolls r) + m"
proof -
  obtain rs g1 where rs: "randints s (nat c) g = (rs, g1)" by (cases "randints s (nat c) g")
  have "length rs = nat c \<and> (\<forall>x \<in> set rs. 1 \<le> x \<and> x \<le> s)"
    using randints_props [OF assms(1), of "nat c" g] rs by simp
  then show ?thesis using assms rs by (simp add: roll_def Let_def)
qed

lemma roll_invalid: "s < 1 \<or> c < 1 \<Longrightarrow> roll s c m g = Inl InvalidDice"
  by (auto simp: roll_def)

lemma d20_ok:
  "\<exists>r g'. d20 m g = Inr (r, g') \<and> 1 \<le> total r - m \<and> total r - m \<le> 20"
proof -
  obtain rs g1 where rs: "randints 20 (Suc 0) g = (rs, g1)" by (cases "randints 20 (Suc 0) g")
  obtain v g2 where v: "randint 1 20 g = (v, g2)" by (cases "randint 1 20 g")
  have "1 \<le> v \<and> v \<le> 20" using randint_range [of 20 g] v by simp
  moreover have "rs = [v]" using rs v by simp
  ultimately show ?thesis using rs by (simp add: d20_def roll_def Let_def)
qed

subsection \<open>The matcher and the grammar\<close>

lemma not_digit [simp]:
  "\<not> is_digit CHR ''d''" "\<not> is_digit CHR ''+''" "\<not> is_digit CHR ''-''"
  "\<not> is_digit CHR 0x0A"
  by (simp_all add: is_digit_def)

lemma takeWhile_all: "list_all P xs \<Longrightarrow> \<not> P y \<Longrightarrow> takeWhile P (xs @ y # ys) = xs"
  by (induction xs) auto

lemma dropWhile_all: "list_all P xs \<Longrightarrow> \<not> P y \<Longrightarrow> dropWhile P (xs @ y # ys) = y # ys"
  by (induction xs) auto

lemma takeWhile_all_nil: "list_all P xs \<Longrightarrow> takeWhile P xs = xs"
  by (induction xs) auto

lemma dropWhile_all_nil: "list_all P xs \<Longrightarrow> dropWhile P xs = []"
  by (induction xs) auto

lemma list_all_takeWhile: "list_all P (takeWhile P xs)"
  by (induction xs) auto

text \<open>Every string of the grammar is matched, with the groups the grammar names.\<close>

lemma match_dice_complete:
  assumes "dice_notation cs ss ms t"
  shows "match_dice t = Some (cs, ss, if ms = [] then None else Some ms)"
proof (cases ms)
  case Nil
  with assms show ?thesis
    by (simp add: dice_notation_def match_dice_def takeWhile_all dropWhile_all
        takeWhile_all_nil dropWhile_all_nil Let_def)
next
  case (Cons sg ds)
  with assms have sg: "\<not> is_digit sg" by (auto simp: dice_notation_def)
  from Cons assms show ?thesis using sg
    by (simp add: dice_notation_def match_dice_def takeWhile_all dropWhile_all
        takeWhile_all_nil dropWhile_all_nil Let_def at_end_def list_all_iff [symmetric])
qed

text \<open>
  A matched string that does not end in a line feed is a string of the grammar: the
  line feed is the one thing Python's \<^verbatim>\<open>$\<close> lets through.
\<close>

lemma match_dice_sound:
  assumes m: "match_dice t = Some (g1, g2, g3)" and nl: "t = [] \<or> last t \<noteq> CHR 0x0A"
  shows "dice_notation g1 g2 (case g3 of None \<Rightarrow> [] | Some m \<Rightarrow> m) t"
proof -
  define r1 where "r1 = dropWhile is_digit t"
  have g1: "g1 = takeWhile is_digit t" and g1_ne: "takeWhile is_digit t \<noteq> []"
    using m by (auto simp: match_dice_def Let_def split: if_splits list.splits)
  have t1: "t = g1 @ r1" by (simp add: g1 r1_def)
  obtain r2 where r1: "r1 = CHR ''d'' # r2"
    using m g1_ne unfolding r1_def
    by (auto simp: match_dice_def Let_def split: if_splits list.splits)
  define r3 where "r3 = dropWhile is_digit r2"
  have g2: "g2 = takeWhile is_digit r2" and g2_ne: "takeWhile is_digit r2 \<noteq> []"
    using m g1_ne r1 unfolding r1_def
    by (auto simp: match_dice_def Let_def split: if_splits list.splits)
  have t2: "t = g1 @ ''d'' @ g2 @ r3" by (simp add: t1 r1 g2 r3_def)
  have base: "g1 \<noteq> []" "list_all is_digit g1" "g2 \<noteq> []" "list_all is_digit g2"
    using g1 g1_ne g2 g2_ne by (simp_all add: list_all_takeWhile)
  have t_ne: "t \<noteq> []" using t1 base by simp
  show ?thesis
  proof (cases r3)
    case Nil
    then have "g3 = None"
      using m g1_ne g2_ne r1 unfolding r1_def r3_def
      by (simp add: match_dice_def Let_def del: dropWhile_eq_Nil_conv)
    then show ?thesis using t2 Nil base by (simp add: dice_notation_def)
  next
    case (Cons sg r4)
    have not_end3: "\<not> at_end r3"
    proof
      assume "at_end r3"
      then have "r3 = [CHR 0x0A]" using Cons by (simp add: at_end_def)
      then have "last t = CHR 0x0A" using t2 by simp
      then show False using nl t_ne by simp
    qed
    define g3' where "g3' = takeWhile is_digit r4"
    define r5 where "r5 = dropWhile is_digit r4"
    have step: "(sg = CHR ''+'' \<or> sg = CHR ''-'') \<and> g3' \<noteq> [] \<and> at_end r5
        \<and> g3 = Some (sg # g3')"
      using m g1_ne g2_ne r1 Cons not_end3 unfolding r1_def r3_def g3'_def r5_def
      by (auto simp: match_dice_def Let_def split: if_splits list.splits)
    have r4: "r4 = g3' @ r5" by (simp add: g3'_def r5_def)
    have "r5 = []"
    proof (rule ccontr)
      assume "r5 \<noteq> []"
      then have "r5 = [CHR 0x0A]" using step by (simp add: at_end_def)
      then have "last t = CHR 0x0A" using t2 Cons r4 by simp
      then show False using nl t_ne by simp
    qed
    then have "r3 = sg # g3'" using Cons r4 by simp
    then show ?thesis using t2 step base
      by (simp add: dice_notation_def g3'_def list_all_takeWhile)
  qed
qed

subsection \<open>The prepared input never ends in a line feed\<close>

lemma last_filter_kept: "xs \<noteq> [] \<Longrightarrow> P (last xs) \<Longrightarrow> last (filter P xs) = last xs"
  by (induction xs rule: rev_induct) auto

lemma lower_char_cases:
  "lower_char c = c \<or> lower_char c \<in> set ''abcdefghijklmnopqrstuvwxyz''"
  by (simp add: lower_char_def lower_table_def)

lemma lower_char_not_space: "\<not> is_space c \<Longrightarrow> \<not> is_space (lower_char c)"
  using lower_char_cases [of c] by (auto simp: is_space_def)

lemma strip_last: "strip s \<noteq> [] \<Longrightarrow> \<not> is_space (last (strip s))"
proof -
  assume ne: "strip s \<noteq> []"
  let ?d = "dropWhile is_space (rev (dropWhile is_space s))"
  have "?d \<noteq> []" using ne by (simp add: strip_def)
  then have "\<not> is_space (hd ?d)" by (rule hd_dropWhile)
  moreover have "last (strip s) = hd ?d"
    using \<open>?d \<noteq> []\<close> by (simp add: strip_def last_rev)
  ultimately show ?thesis by simp
qed

lemma normalise_last: "normalise s = [] \<or> last (normalise s) \<noteq> CHR 0x0A"
proof (cases "strip s = []")
  case True
  then show ?thesis by (simp add: normalise_def lower_def remove_spaces_def)
next
  case False
  let ?l = "lower (strip s)"
  have ne: "?l \<noteq> []" using False by (simp add: lower_def)
  have "last ?l = lower_char (last (strip s))"
    using False by (simp add: lower_def last_map)
  then have ns: "\<not> is_space (last ?l)"
    using strip_last [OF False] lower_char_not_space by simp
  then have keep: "last ?l \<noteq> CHR '' ''" by (auto simp: is_space_def)
  have "last (normalise s) = last ?l"
    using keep ne by (simp add: normalise_def remove_spaces_def last_filter_kept)
  then show ?thesis using ns by (auto simp: is_space_def)
qed

subsection \<open>Parsing a notation\<close>

lemma parse_and_roll_match:
  assumes "dice_notation cs ss ms (normalise s)"
  shows "parse_and_roll s g =
           roll (digits_value ss) (digits_value cs) (if ms = [] then 0 else py_int ms) g"
proof -
  have cs: "py_int cs = digits_value cs" and ss: "py_int ss = digits_value ss"
    using assms
    by (auto simp: dice_notation_def py_int_def is_digit_def split: list.splits)
  show ?thesis
    using match_dice_complete [OF assms] cs ss
    by (simp add: parse_and_roll_def normalise_def Let_def)
qed

lemma parse_and_roll_nomatch:
  assumes "\<forall>cs ss ms. \<not> dice_notation cs ss ms (normalise s)"
  shows "parse_and_roll s g = Inl (InvalidDiceNotation (normalise s))"
proof (cases "match_dice (normalise s)")
  case None
  then show ?thesis by (simp add: parse_and_roll_def normalise_def Let_def)
next
  case (Some grp)
  obtain g1 g2 g3 where "grp = (g1, g2, g3)" by (cases grp)
  with Some have "dice_notation g1 g2 (case g3 of None \<Rightarrow> [] | Some m \<Rightarrow> m) (normalise s)"
    using match_dice_sound normalise_last by blast
  with assms show ?thesis by blast
qed

lemma no_notation_for:
  "match_dice t = None \<Longrightarrow> \<forall>cs ss ms. \<not> dice_notation cs ss ms t"
  using match_dice_complete by fastforce

text \<open>
  Claim C5, as stated, fails twice. \<open>0d6\<close> is a string of the grammar, yet it is not
  rolled: \<open>roll\<close> refuses a count or a number of sides below 1. And the error for a
  string outside the grammar carries the prepared string (stripped, in lower case,
  spaces deleted), not the original input.
\<close>

theorem parse_and_roll_not_by_grammar_alone:
  "dice_notation ''0'' ''6'' [] (normalise ''0d6'') \<and>
   parse_and_roll ''0d6'' tied_rolls = Inl InvalidDice \<and>
   parse_and_roll ''Long Sword'' tied_rolls = Inl (InvalidDiceNotation ''longsword'')"
  by (simp add: parse_and_roll_def match_dice_def dice_notation_def normalise_def
      strip_def is_space_def lower_def lower_char_def lower_table_def remove_spaces_def
      is_digit_def at_end_def py_int_def digits_value_def digit_value_def roll_def Let_def)

text \<open>
  Claim C5, amended. \<open>parse_and_roll\<close> prepares its input: it strips the whitespace at
  both ends, puts it in lower case and deletes every space. If the prepared string is
  not of the form count, \<open>d\<close>, sides, optional signed modifier, the call fails with
  \<open>InvalidDiceNotation\<close> carrying the prepared string. If it is, the call is
  \<open>roll\<close> on the three numbers: it fails with \<open>InvalidDice\<close> when the count or the
  sides are below 1, and otherwise returns count rolls, each between 1 and sides, the
  modifier (0 when absent), and total = sum of the rolls + modifier.
\<close>

theorem parse_and_roll_cases:
  "((\<forall>cs ss ms. \<not> dice_notation cs ss ms (normalise s)) \<longrightarrow>
      parse_and_roll s g = Inl (InvalidDiceNotation (normalise s))) \<and>
   (dice_notation cs ss ms (normalise s) \<longrightarrow>
      (digits_value cs < 1 \<or> digits_value ss < 1 \<longrightarrow>
         parse_and_roll s g = Inl InvalidDice) \<and>
      (1 \<le> digits_value cs \<and> 1 \<le> digits_value ss \<longrightarrow>
         (\<exists>r g'. parse_and_roll s g = Inr (r, g') \<and>
            length (rolls r) = nat (digits_value cs) \<and>
            (\<forall>x \<in> set (rolls r). 1 \<le> x \<and> x \<le> digits_value ss) \<and>
            modifier r = (if ms = [] then 0 else py_int ms) \<and>
            total r = sum_list (rolls r) + modifier r)))"
  using parse_and_roll_nomatch [of s g] parse_and_roll_match [of cs ss ms s g]
    roll_invalid [of "digits_value ss" "digits_value cs" "if ms = [] then 0 else py_int ms" g]
    roll_ok [of "digits_value ss" "digits_value cs" "if ms = [] then 0 else py_int ms" g]
  by auto

text \<open>
  \<open>2D6 + 3\<close> with spaces around it is two six-sided dice plus 3; \<open>Long Sword\<close> is
  refused as \<open>longsword\<close>.
\<close>

theorem parse_and_roll_cases_witness:
  "dice_notation ''2'' ''6'' ''+3'' (normalise '' 2D6 + 3 '') \<and>
   1 \<le> digits_value ''2'' \<and> 1 \<le> digits_value ''6'' \<and>
   (\<exists>r g'. parse_and_roll '' 2D6 + 3 '' tied_rolls = Inr (r, g') \<and>
      length (rolls r) = 2 \<and> modifier r = 3 \<and> total r = sum_list (rolls r) + 3) \<and>
   match_dice (normalise ''Long Sword'') = None \<and>
   parse_and_roll ''Long Sword'' tied_rolls = Inl (InvalidDiceNotation ''longsword'')"
proof -
  have n1: "normalise '' 2D6 + 3 '' = ''2d6+3''" and n2: "normalise ''Long Sword'' = ''longsword''"
    by (simp_all add: normalise_def strip_def is_space_def lower_def lower_char_def
        lower_table_def remove_spaces_def)
  have d: "dice_notation ''2'' ''6'' ''+3'' (normalise '' 2D6 + 3 '')"
    by (simp add: n1 dice_notation_def is_digit_def)
  have v: "digits_value ''2'' = 2" "digits_value ''6'' = 6" "py_int ''+3'' = 3"
    by (simp_all add: digits_value_def digit_value_def py_int_def)
  have none: "match_dice (normalise ''Long Sword'') = None"
    by (simp add: n2 match_dice_def is_digit_def)
  show ?thesis
    using parse_and_roll_cases [of "'' 2D6 + 3 ''" tied_rolls "''2''" "''6''" "''+3''"]
      parse_and_roll_cases [of "''Long Sword''" tied_rolls "''2''" "''6''" "''+3''"]
      no_notation_for [OF none] d v none n2
    by auto
qed

section \<open>Properties of combatants and encounters\<close>

subsection \<open>Consciousness and health\<close>

text \<open>
  Claim C10, as stated, fails: nothing keeps the amounts from being negative. Healing
  a conscious goblin (7 hit points) by \<open>-9\<close> leaves it at \<open>-2\<close> hit points, still
  flagged conscious and without the \<open>unconscious\<close> condition.
\<close>

theorem combatant_heal_negative_breaks_tracking:
  "consciousness_tracks_health goblin \<and>
   cb_health (fst (combatant_heal goblin (- 9))) = - 2 \<and>
   is_conscious (fst (combatant_heal goblin (- 9))) \<and>
   \<not> consciousness_tracks_health (fst (combatant_heal goblin (- 9)))"
  by (simp add: goblin_def ambush_def add_enemy_def add_player_def add_combatant_def
      new_encounter_def from_character_def combatant_heal_def
      consciousness_tracks_health_def Let_def)

text \<open>
  Claim C10, amended. For a combatant whose flag and \<open>unconscious\<close> condition are in
  line with its health: \<open>take_damage\<close> with damage \<open>\<ge> 0\<close> keeps them in line;
  \<open>heal\<close> with healing \<open>\<ge> 0\<close> keeps them in line when health does not exceed
  max_health and the conditions hold no entry twice; and then healing an unconscious
  combatant to positive health sets the flag and removes the \<open>unconscious\<close> condition.
\<close>

theorem consciousness_preserved:
  assumes "consciousness_tracks_health c"
  shows "(0 \<le> damage \<longrightarrow>
            consciousness_tracks_health (fst (combatant_take_damage c damage))) \<and>
     (0 \<le> healing \<and> cb_health c \<le> cb_max_health c \<and> distinct (cb_conditions c) \<longrightarrow>
        consciousness_tracks_health (fst (combatant_heal c healing)) \<and>
        (\<not> is_conscious c \<and> 0 < cb_health (fst (combatant_heal c healing)) \<longrightarrow>
           is_conscious (fst (combatant_heal c healing)) \<and>
           ''unconscious'' \<notin> set (cb_conditions (fst (combatant_heal c healing)))))"
proof (intro conjI impI)
  show "consciousness_tracks_health (fst (combatant_take_damage c damage))"
    if "0 \<le> damage"
    using that assms
    by (auto simp: consciousness_tracks_health_def combatant_take_damage_def Let_def min_def)
  assume h: "0 \<le> healing \<and> cb_health c \<le> cb_max_health c \<and> distinct (cb_conditions c)"
  show "consciousness_tracks_health (fst (combatant_heal c healing))"
    using h assms
    by (auto simp: consciousness_tracks_health_def combatant_heal_def Let_def min_def)
  assume w: "\<not> is_conscious c \<and> 0 < cb_health (fst (combatant_heal c healing))"
  show "is_conscious (fst (combatant_heal c healing))"
    using h w assms
    by (auto simp: consciousness_tracks_health_def combatant_heal_def Let_def min_def
        split: if_splits)
  show "''unconscious'' \<notin> set (cb_conditions (fst (combatant_heal c healing)))"
    using h w assms
    by (auto simp: consciousness_tracks_health_def combatant_heal_def Let_def min_def
        split: if_splits)
qed

text \<open>
  The goblin takes 9 damage and falls; the downed goblin is healed by 4 and wakes up.
\<close>

theorem consciousness_preserved_witness:
  "consciousness_tracks_health downed_goblin \<and>
   cb_health downed_goblin \<le> cb_max_health downed_goblin \<and>
   distinct (cb_conditions downed_goblin) \<and> \<not> is_conscious downed_goblin \<and>
   cb_health (fst (combatant_heal downed_goblin 4)) = 4 \<and>
   consciousness_tracks_health (fst (combatant_take_damage downed_goblin 2)) \<and>
   consciousness_tracks_health (fst (combatant_heal downed_goblin 4)) \<and>
   is_conscious (fst (combatant_heal downed_goblin 4)) \<and>
   ''unconscious'' \<notin> set (cb_conditions (fst (combatant_heal downed_goblin 4)))"
proof -
  have g: "downed_goblin =
      \<lparr>cb_name = ''Goblin'', combatant_type = ENEMY, cb_health = 0, cb_max_health = 7,
       cb_armor_class = 15, initiative = 0, cb_character = None, is_conscious = False,
       cb_conditions = [''unconscious'']\<rparr>"
    by (simp add: downed_goblin_def goblin_def ambush_def add_enemy_def add_player_def
        add_combatant_def new_encounter_def from_character_def combatant_take_damage_def
        Let_def)
  have inv: "consciousness_tracks_health downed_goblin"
    by (simp add: g consciousness_tracks_health_def)
  have h: "cb_health (fst (combatant_heal downed_goblin 4)) = 4"
    by (simp add: g combatant_heal_def Let_def)
  show ?thesis
    using consciousness_preserved [OF inv, of 2 4] inv h by (simp add: g)
qed

subsection \<open>Starting combat\<close>

lemma log_action_fields [simp]:
  "combatants (log_action e a) = combatants e"
  "turn_order (log_action e a) = turn_order e"
  "round_number (log_action e a) = round_number e"
  "is_active (log_action e a) = is_active e"
  "current_turn_index (log_action e a) = current_turn_index e"
  "enc_name (log_action e a) = enc_name e"
  by (simp_all add: log_action_def)

text \<open>
  Inserting a position that is smaller than all positions already there keeps a list
  ordered by key first and by position among equal keys.
\<close>

lemma insort_key_then_position:
  fixes key :: "nat \<Rightarrow> int"
  assumes "sorted_wrt (\<lambda>i j. key i < key j \<or> (key i = key j \<and> i < j)) ys"
    and "\<forall>y \<in> set ys. x < y"
  shows "sorted_wrt (\<lambda>i j. key i < key j \<or> (key i = key j \<and> i < j)) (insort_key key x ys)"
  using assms
proof (induction ys)
  case Nil
  then show ?case by simp
next
  case (Cons y ys)
  show ?case
  proof (cases "key x \<le> key y")
    case True
    have "key x < key z \<or> (key x = key z \<and> x < z)" if z: "z \<in> set (y # ys)" for z
    proof -
      have "key y \<le> key z" using z Cons.prems(1) by auto
      then have "key x \<le> key z" using True by simp
      moreover have "x < z" using z Cons.prems(2) by auto
      ultimately show ?thesis by auto
    qed
    then show ?thesis using True Cons.prems(1) by simp
  next
    case False
    then have "key y < key x" by simp
    moreover have "sorted_wrt (\<lambda>i j. key i < key j \<or> (key i = key j \<and> i < j))
        (insort_key key x ys)"
      using Cons by simp
    ultimately show ?thesis using False Cons.prems(1) by (auto simp: set_insort_key)
  qed
qed

lemma sort_key_then_position:
  fixes key :: "nat \<Rightarrow> int"
  shows "sorted_wrt (<) xs \<Longrightarrow>
    sorted_wrt (\<lambda>i j. key i < key j \<or> (key i = key j \<and> i < j)) (sort_key key xs)"
proof (induction xs)
  case Nil
  then show ?case by simp
next
  case (Cons x xs)
  then have "sorted_wrt (\<lambda>i j. key i < key j \<or> (key i = key j \<and> i < j)) (sort_key key xs)"
    by simp
  moreover have "\<forall>y \<in> set (sort_key key xs). x < y" using Cons.prems by simp
  ultimately show ?case by (simp add: insort_key_then_position)
qed

text \<open>
  The loop never fails; it gives every position it visits an initiative between 1 and
  20 and changes nothing else.
\<close>

lemma roll_initiative_loop_props:
  "\<exists>e' g'. roll_initiative_loop idxs e g = Inr (e', g') \<and>
     length (combatants e') = length (combatants e) \<and>
     turn_order e' = turn_order e \<and> round_number e' = round_number e \<and>
     is_active e' = is_active e \<and> enc_name e' = enc_name e \<and>
     (\<forall>j < length (combatants e).
        (j \<in> set idxs \<longrightarrow>
           (\<exists>v. 1 \<le> v \<and> v \<le> 20 \<and>
                combatants e' ! j = (combatants e ! j)\<lparr>initiative := v\<rparr>)) \<and>
        (j \<notin> set idxs \<longrightarrow> combatants e' ! j = combatants e ! j))"
proof (induction idxs arbitrary: e g)
  case Nil
  then show ?case by simp
next
  case (Cons i rest)
  obtain r g1 where r: "d20 0 g = Inr (r, g1)" and range: "1 \<le> total r" "total r \<le> 20"
    using d20_ok [of 0 g] by auto
  define c where "c = (combatants e ! i)\<lparr>initiative := total r\<rparr>"
  define e2 where "e2 = log_action (e\<lparr>combatants := (combatants e)[i := c]\<rparr>)
      (cb_name c @ '' rolled '' @ str (initiative c) @ '' for initiative'')"
  have step: "roll_initiative_loop (i # rest) e g = roll_initiative_loop rest e2 g1"
    using r by (simp add: Let_def c_def e2_def)
  have len2: "length (combatants e2) = length (combatants e)" by (simp add: e2_def)
  have other2: "turn_order e2 = turn_order e" "round_number e2 = round_number e"
      "is_active e2 = is_active e" "enc_name e2 = enc_name e"
    by (simp_all add: e2_def)
  obtain e' g' where res: "roll_initiative_loop rest e2 g1 = Inr (e', g')"
    and len: "length (combatants e') = length (combatants e2)"
    and other: "turn_order e' = turn_order e2" "round_number e' = round_number e2"
      "is_active e' = is_active e2" "enc_name e' = enc_name e2"
    and each: "\<forall>j < length (combatants e2).
        (j \<in> set rest \<longrightarrow>
           (\<exists>v. 1 \<le> v \<and> v \<le> 20 \<and>
                combatants e' ! j = (combatants e2 ! j)\<lparr>initiative := v\<rparr>)) \<and>
        (j \<notin> set rest \<longrightarrow> combatants e' ! j = combatants e2 ! j)"
    using Cons.IH [of e2 g1] by blast
  have at_i: "combatants e2 ! j = (combatants e ! j)\<lparr>initiative := total r\<rparr>"
    if "j < length (combatants e)" "j = i" for j
    using that by (simp add: e2_def c_def)
  have off_i: "combatants e2 ! j = combatants e ! j" if "j \<noteq> i" for j
    using that by (simp add: e2_def)
  have "(j \<in> set (i # rest) \<longrightarrow>
           (\<exists>v. 1 \<le> v \<and> v \<le> 20 \<and>
                combatants e' ! j = (combatants e ! j)\<lparr>initiative := v\<rparr>)) \<and>
        (j \<notin> set (i # rest) \<longrightarrow> combatants e' ! j = combatants e ! j)"
    if j: "j < length (combatants e)" for j
  proof (cases "j \<in> set rest")
    case True
    then obtain v where v: "1 \<le> v" "v \<le> 20"
        "combatants e' ! j = (combatants e2 ! j)\<lparr>initiative := v\<rparr>"
      using each j len2 by auto
    have "combatants e' ! j = (combatants e ! j)\<lparr>initiative := v\<rparr>"
    proof (cases "j = i")
      case True
      then show ?thesis using v(3) at_i [OF j] by simp
    next
      case False
      then show ?thesis using v(3) off_i by simp
    qed
    then show ?thesis using True v by auto
  next
    case False
    then have keep: "combatants e' ! j = combatants e2 ! j"
      using each j len2 by auto
    show ?thesis
    proof (cases "j = i")
      case True
      then show ?thesis using keep at_i [OF j] range by auto
    next
      case False
      then show ?thesis using keep off_i \<open>j \<notin> set rest\<close> by simp
    qed
  qed
  then show ?case using step res len len2 other other2 by simp
qed

lemma roll_initiative_ok:
  "\<exists>e' g'. roll_initiative e g = Inr (e', g') \<and>
     length (combatants e') = length (combatants e) \<and>
     round_number e' = round_number e \<and> is_active e' = is_active e \<and>
     current_turn_index e' = 0 \<and>
     turn_order e' = sorted_reverse (\<lambda>i. initiative (combatants e' ! i))
                       [0..<length (combatants e')] \<and>
     (\<forall>j < length (combatants e).
        \<exists>v. 1 \<le> v \<and> v \<le> 20 \<and>
            combatants e' ! j = (combatants e ! j)\<lparr>initiative := v\<rparr>)"
proof -
  obtain e1 g1 where res: "roll_initiative_loop [0..<length (combatants e)] e g = Inr (e1, g1)"
    and len: "length (combatants e1) = length (combatants e)"
    and other: "round_number e1 = round_number e" "is_active e1 = is_active e"
    and each: "\<forall>j < length (combatants e).
        (j \<in> set [0..<length (combatants e)] \<longrightarrow>
           (\<exists>v. 1 \<le> v \<and> v \<le> 20 \<and>
                combatants e1 ! j = (combatants e ! j)\<lparr>initiative := v\<rparr>)) \<and>
        (j \<notin> set [0..<length (combatants e)] \<longrightarrow> combatants e1 ! j = combatants e ! j)"
    using roll_initiative_loop_props [of "[0..<length (combatants e)]" e g] by blast
  have "\<forall>j < length (combatants e).
        \<exists>v. 1 \<le> v \<and> v \<le> 20 \<and>
            combatants e1 ! j = (combatants e ! j)\<lparr>initiative := v\<rparr>"
    using each by simp
  then show ?thesis using res len other
    by (simp add: roll_initiative_def Let_def)
qed

text \<open>
  Claim C3. With a roster that is not empty, \<open>start_combat\<close> succeeds: the encounter is
  active in round 1 at turn 0, every combatant keeps its fields but for an initiative
  between 1 and 20, and the turn order holds every position of the roster once, by
  descending initiative, two combatants with equal initiative standing in the order of
  their positions in the roster, which is the order of registration.
\<close>

theorem start_combat_turn_order:
  assumes "combatants e \<noteq> []"
  shows "\<exists>e' g'. start_combat e g = Inr (e', g') \<and>
     is_active e' \<and> round_number e' = 1 \<and> current_turn_index e' = 0 \<and>
     length (combatants e') = length (combatants e) \<and>
     (\<forall>j < length (combatants e).
        \<exists>v. 1 \<le> v \<and> v \<le> 20 \<and>
            combatants e' ! j = (combatants e ! j)\<lparr>initiative := v\<rparr>) \<and>
     set (turn_order e') = {0..<length (combatants e')} \<and>
     distinct (turn_order e') \<and>
     sorted_wrt (\<lambda>i j. initiative (combatants e' ! i) > initiative (combatants e' ! j) \<or>
                      (initiative (combatants e' ! i) = initiative (combatants e' ! j) \<and> i < j))
       (turn_order e')"
proof -
  obtain e1 g1 where res: "roll_initiative e g = Inr (e1, g1)"
    and len: "length (combatants e1) = length (combatants e)"
    and idx: "current_turn_index e1 = 0"
    and ord: "turn_order e1 = sorted_reverse (\<lambda>i. initiative (combatants e1 ! i))
                       [0..<length (combatants e1)]"
    and each: "\<forall>j < length (combatants e).
        \<exists>v. 1 \<le> v \<and> v \<le> 20 \<and>
            combatants e1 ! j = (combatants e ! j)\<lparr>initiative := v\<rparr>"
    using roll_initiative_ok [of e g] by blast
  have "sorted_wrt (<) [0..<length (combatants e1)]" by simp
  then have lex: "sorted_wrt (\<lambda>i j. initiative (combatants e1 ! i) > initiative (combatants e1 ! j) \<or>
                      (initiative (combatants e1 ! i) = initiative (combatants e1 ! j) \<and> i < j))
       (turn_order e1)"
    unfolding ord sorted_reverse_def
    using sort_key_then_position
      [of "[0..<length (combatants e1)]" "\<lambda>i. - initiative (combatants e1 ! i)"]
    by simp
  have perm: "set (turn_order e1) = {0..<length (combatants e1)}" "distinct (turn_order e1)"
    by (simp_all add: ord sorted_reverse_def)
  show ?thesis using assms res len idx each lex perm
    by (simp add: start_combat_def Let_def)
qed

text \<open>
  Aria, a goblin and an orc roll 12, 5 and 12: Aria and the orc tie, and Aria, who was
  registered first, acts first.
\<close>

theorem start_combat_turn_order_witness:
  "combatants ambush \<noteq> [] \<and>
   (\<exists>e' g'. start_combat ambush tied_rolls = Inr (e', g') \<and>
      is_active e' \<and> round_number e' = 1 \<and>
      map initiative (combatants e') = [12, 5, 12] \<and> turn_order e' = [0, 2, 1])"
proof -
  have ne: "combatants ambush \<noteq> []" by code_simp
  have ev: "(case start_combat ambush tied_rolls of
               Inl err \<Rightarrow> False
             | Inr (e', g') \<Rightarrow>
                 turn_order e' = [0, 2, 1] \<and> map initiative (combatants e') = [12, 5, 12])"
    by code_simp
  obtain e' g' where "start_combat ambush tied_rolls = Inr (e', g')"
      "is_active e'" "round_number e' = 1"
    using start_combat_turn_order [OF ne, of tied_rolls] by blast
  then show ?thesis using ev ne by simp
qed

subsection \<open>A full round of turns\<close>

lemma end_combat_fields [simp]:
  "combatants (snd (end_combat h e)) = combatants e"
  "turn_order (snd (end_combat h e)) = turn_order e"
  "round_number (snd (end_combat h e)) = round_number e"
  by (simp_all add: end_combat_def Let_def)

lemma next_turn_advance:
  assumes "is_active e" and "current_turn_index e + 1 < int (length (turn_order e))"
  shows "next_turn h e = (h, e\<lparr>current_turn_index := current_turn_index e + 1\<rparr>)"
  using assms by (simp add: next_turn_def Let_def)

lemma next_turn_wrap:
  assumes "is_active e" and "int (length (turn_order e)) \<le> current_turn_index e + 1"
  shows "round_number (snd (next_turn h e)) = round_number e + 1 \<and>
         combatants (snd (next_turn h e)) = combatants e \<and>
         turn_order (snd (next_turn h e))
           = filter (\<lambda>i. is_conscious (combatants e ! i)) (turn_order e)"
  using assms by (simp add: next_turn_def Let_def)

lemma next_turns_advance:
  assumes "is_active e" and "current_turn_index e = int j"
    and "j + k < length (turn_order e)"
  shows "next_turns k h e = (h, e\<lparr>current_turn_index := int (j + k)\<rparr>)"
  using assms
proof (induction k arbitrary: e j)
  case 0
  then show ?case by simp
next
  case (Suc k)
  let ?e1 = "e\<lparr>current_turn_index := current_turn_index e + 1\<rparr>"
  have step: "next_turn h e = (h, ?e1)"
    using Suc.prems by (intro next_turn_advance) simp_all
  have "next_turns k h ?e1 = (h, ?e1\<lparr>current_turn_index := int (Suc j + k)\<rparr>)"
    using Suc.prems by (intro Suc.IH) simp_all
  then show ?case using step by simp
qed

lemma next_turns_Suc:
  "next_turns (Suc k) h e = (case next_turns k h e of (h1, e1) \<Rightarrow> next_turn h1 e1)"
proof (induction k arbitrary: h e)
  case 0
  then show ?case by (simp split: prod.splits)
next
  case (Suc k)
  obtain h1 e1 where s: "next_turn h e = (h1, e1)" by (cases "next_turn h e")
  have "next_turns (Suc (Suc k)) h e = next_turns (Suc k) h1 e1" using s by simp
  also have "\<dots> = (case next_turns k h1 e1 of (h2, e2) \<Rightarrow> next_turn h2 e2)"
    by (rule Suc.IH)
  also have "\<dots> = (case next_turns (Suc k) h e of (h2, e2) \<Rightarrow> next_turn h2 e2)"
    using s by simp
  finally show ?case .
qed

lemma take_damage_to_zero_clears_flag:
  "cb_health (fst (combatant_take_damage c d)) \<le> 0 \<Longrightarrow>
     \<not> is_conscious (fst (combatant_take_damage c d))"
  by (simp add: combatant_take_damage_def Let_def split: if_splits)

text \<open>
  Claim C2, as stated, fails: \<open>next_turn\<close> removes by the consciousness flag, not by
  health, and a combatant registered with health 0 is flagged conscious. A character
  knocked out in an earlier fight (health 0) enters a new encounter with a goblin; both
  stand in the turn order when combat starts, and after the two calls of the first
  round the character, still at health 0, is still in the turn order.
\<close>

theorem next_turn_keeps_flagged_at_zero_health:
  "is_active rematch_started \<and> current_turn_index rematch_started = 0 \<and>
   turn_order rematch_started = [0, 1] \<and> round_number rematch_started = 1 \<and>
   map cb_health (combatants rematch_started) = [0, 7] \<and>
   map is_conscious (combatants rematch_started) = [True, True] \<and>
   round_number (snd (next_turns 2 fallen_party rematch_started)) = 2 \<and>
   map cb_health (combatants (snd (next_turns 2 fallen_party rematch_started))) = [0, 7] \<and>
   turn_order (snd (next_turns 2 fallen_party rematch_started)) = [0, 1]"
  by code_simp

text \<open>
  Claim C2, amended. In an active encounter at turn index 0 whose turn order is not
  empty, calling \<open>next_turn\<close> as many times as the turn order is long raises the round
  by exactly 1, leaves the roster as it was, and keeps in the turn order, in the same
  order, exactly the combatants flagged conscious. So a combatant that
  \<open>take_damage\<close> has brought to health 0 or below is removed; and when the flag of
  every combatant in the turn order is in line with its health, the combatants kept are
  exactly those with health above 0.
\<close>

theorem next_turn_full_round:
  assumes "is_active e" and "current_turn_index e = 0" and "turn_order e \<noteq> []"
  shows "round_number (snd (next_turns (length (turn_order e)) h e)) = round_number e + 1 \<and>
     combatants (snd (next_turns (length (turn_order e)) h e)) = combatants e \<and>
     turn_order (snd (next_turns (length (turn_order e)) h e))
       = filter (\<lambda>i. is_conscious (combatants e ! i)) (turn_order e) \<and>
     (\<forall>i c d. combatants e ! i = fst (combatant_take_damage c d) \<and>
              cb_health (combatants e ! i) \<le> 0 \<longrightarrow>
        i \<notin> set (turn_order (snd (next_turns (length (turn_order e)) h e)))) \<and>
     ((\<forall>i \<in> set (turn_order e).
          is_conscious (combatants e ! i) \<longleftrightarrow> 0 < cb_health (combatants e ! i)) \<longrightarrow>
      turn_order (snd (next_turns (length (turn_order e)) h e))
        = filter (\<lambda>i. 0 < cb_health (combatants e ! i)) (turn_order e))"
proof -
  obtain m where n: "length (turn_order e) = Suc m"
    using assms(3) by (cases "turn_order e") auto
  let ?e1 = "e\<lparr>current_turn_index := int m\<rparr>"
  let ?after = "snd (next_turns (length (turn_order e)) h e)"
  have "next_turns m h e = (h, e\<lparr>current_turn_index := int (0 + m)\<rparr>)"
    using assms(1,2) n by (intro next_turns_advance) simp_all
  then have last: "next_turns (Suc m) h e = next_turn h ?e1"
    by (simp add: next_turns_Suc del: next_turns.simps)
  have wrap: "round_number (snd (next_turn h ?e1)) = round_number ?e1 + 1 \<and>
         combatants (snd (next_turn h ?e1)) = combatants ?e1 \<and>
         turn_order (snd (next_turn h ?e1))
           = filter (\<lambda>i. is_conscious (combatants ?e1 ! i)) (turn_order ?e1)"
    using assms(1) n by (intro next_turn_wrap) simp_all
  have main: "round_number ?after = round_number e + 1"
      "combatants ?after = combatants e"
      "turn_order ?after = filter (\<lambda>i. is_conscious (combatants e ! i)) (turn_order e)"
    using wrap last n by simp_all
  have downed: "i \<notin> set (turn_order ?after)"
    if "combatants e ! i = fst (combatant_take_damage c d) \<and> cb_health (combatants e ! i) \<le> 0"
    for i c d
  proof -
    have "\<not> is_conscious (combatants e ! i)"
      using that take_damage_to_zero_clears_flag [of c d] by metis
    then show ?thesis by (simp add: main(3))
  qed
  have aligned: "filter (\<lambda>i. is_conscious (combatants e ! i)) (turn_order e)
      = filter (\<lambda>i. 0 < cb_health (combatants e ! i)) (turn_order e)"
    if "\<forall>i \<in> set (turn_order e).
          is_conscious (combatants e ! i) \<longleftrightarrow> 0 < cb_health (combatants e ! i)"
    using that by (intro filter_cong) auto
  show ?thesis using main downed aligned by (simp del: next_turns.simps)
qed

text \<open>
  Round 1 with the orc, Aria and the goblin in the turn order, the goblin brought to
  health 0 by 9 points of damage: after three calls it is round 2, the orc and Aria
  remain in the turn order, and the goblin is still in the roster.
\<close>

theorem next_turn_full_round_witness:
  "is_active second_turn \<and> current_turn_index second_turn = 0 \<and>
   turn_order second_turn = [2, 0, 1] \<and>
   combatants second_turn ! 1 = fst (combatant_take_damage goblin 9) \<and>
   cb_health (combatants second_turn ! 1) \<le> 0 \<and>
   map cb_health (combatants second_turn) = [10, 0, 15] \<and>
   map is_conscious (combatants second_turn) = [True, False, True] \<and>
   round_number second_turn = 1 \<and>
   round_number (snd (next_turns 3 party second_turn)) = 2 \<and>
   combatants (snd (next_turns 3 party second_turn)) = combatants second_turn \<and>
   turn_order (snd (next_turns 3 party second_turn)) = [2, 0] \<and>
   1 \<notin> set (turn_order (snd (next_turns 3 party second_turn)))"
proof -
  have a: "is_active second_turn" and b: "current_turn_index second_turn = 0"
    and c: "turn_order second_turn = [2, 0, 1]" and r: "round_number second_turn = 1"
    and l: "map cb_health (combatants second_turn) = [10, 0, 15]"
    and fl: "map is_conscious (combatants second_turn) = [True, False, True]"
    and z: "cb_health (combatants second_turn ! 1) \<le> 0"
    by code_simp+
  have g: "combatants second_turn ! 1 = fst (combatant_take_damage goblin 9)"
    by (simp add: second_turn_def downed_goblin_def ambush_def add_enemy_def add_player_def
        add_combatant_def new_encounter_def)
  have f: "filter (\<lambda>i. is_conscious (combatants second_turn ! i)) (turn_order second_turn)
      = [2, 0]"
    by code_simp
  have ne: "turn_order second_turn \<noteq> []" using c by simp
  have len: "length (turn_order second_turn) = 3" using c by simp
  have inst: "round_number (snd (next_turns 3 party second_turn)) = round_number second_turn + 1 \<and>
     combatants (snd (next_turns 3 party second_turn)) = combatants second_turn \<and>
     turn_order (snd (next_turns 3 party second_turn))
       = filter (\<lambda>i. is_conscious (combatants second_turn ! i)) (turn_order second_turn) \<and>
     (\<forall>i c d. combatants second_turn ! i = fst (combatant_take_damage c d) \<and>
              cb_health (combatants second_turn ! i) \<le> 0 \<longrightarrow>
        i \<notin> set (turn_order (snd (next_turns 3 party second_turn)))) \<and>
     ((\<forall>i \<in> set (turn_order second_turn).
          is_conscious (combatants second_turn ! i)
            \<longleftrightarrow> 0 < cb_health (combatants second_turn ! i)) \<longrightarrow>
      turn_order (snd (next_turns 3 party second_turn))
        = filter (\<lambda>i. 0 < cb_health (combatants second_turn ! i)) (turn_order second_turn))"
    using next_turn_full_round [OF a b ne, of party] unfolding len .
  then have out: "1 \<notin> set (turn_order (snd (next_turns 3 party second_turn)))"
    using g z by blast
  from inst have "round_number (snd (next_turns 3 party second_turn)) = 2 \<and>
     combatants (snd (next_turns 3 party second_turn)) = combatants second_turn \<and>
     turn_order (snd (next_turns 3 party second_turn)) = [2, 0]"
    by (simp only: f r one_add_one)
  then show ?thesis using a b c g z l fl r out by blast
qed

section \<open>Properties of sessions\<close>

subsection \<open>Saving and loading\<close>

lemma load_event_asdict: "load_event (event_asdict ev) = ev"
  by (simp add: load_event_def event_asdict_def)

lemma map_load_event_asdict: "map (load_event \<circ> event_asdict) evs = evs"
  by (induction evs) (simp_all add: load_event_asdict)

lemma new_session_fields:
  "files (snd (new_session sid dir w)) = files w"
  "session_file (fst (new_session sid dir w)) = path_join dir (sid @ ''.json'')"
  by (simp_all add: new_session_def now_def)

lemma save_session_result:
  "fst (save_session s w) \<Longrightarrow>
     \<exists>d. files (snd (snd (save_session s w))) (session_file s) = Some (Parsed d) \<and>
         sd_turn_count d = Some (turn_count s) \<and>
         sd_current_location d = Some (current_location s) \<and>
         sd_story_history d = Some (map event_asdict (story_history s))"
  by (simp add: save_session_def now_def Let_def split: if_splits)

lemma load_session_parsed:
  "files w (session_file f) = Some (Parsed d) \<Longrightarrow>
     fst (load_session f w) \<and>
     turn_count (snd (load_session f w)) = (case sd_turn_count d of None \<Rightarrow> 0 | Some n \<Rightarrow> n) \<and>
     current_location (snd (load_session f w))
       = (case sd_current_location d of None \<Rightarrow> ''Starting Village'' | Some l \<Rightarrow> l) \<and>
     story_history (snd (load_session f w))
       = map load_event (case sd_story_history d of None \<Rightarrow> [] | Some l \<Rightarrow> l)"
  by (simp add: load_session_def)

text \<open>
  Claim C7. When \<open>save_session\<close> succeeds on a session whose file path is the one its
  identifier and directory give, \<open>load_session\<close> on a new session with the same
  identifier and directory succeeds and gives back the turn count, the current location
  and the story events, hence the content, the event type and the metadata of every
  event, in the order in which they were appended.
\<close>

theorem save_load_round_trip:
  assumes run: "save_then_load s w = (saved, loaded, l)" and saved: "saved"
    and path: "session_file s = path_join (sessions_dir s) (session_id s @ ''.json'')"
  shows "loaded \<and> turn_count l = turn_count s \<and> current_location l = current_location s \<and>
     story_history l = story_history s \<and>
     map content (story_history l) = map content (story_history s) \<and>
     map event_type (story_history l) = map event_type (story_history s) \<and>
     map metadata (story_history l) = map metadata (story_history s)"
proof -
  let ?w1 = "snd (snd (save_session s w))"
  let ?fresh = "fst (new_session (session_id s) (sessions_dir s) ?w1)"
  let ?w2 = "snd (new_session (session_id s) (sessions_dir s) ?w1)"
  have parts: "saved = fst (save_session s w)" "loaded = fst (load_session ?fresh ?w2)"
      "l = snd (load_session ?fresh ?w2)"
    using run by (simp_all add: save_then_load_def split: prod.splits)
  obtain d where d: "files ?w1 (session_file s) = Some (Parsed d)"
      "sd_turn_count d = Some (turn_count s)"
      "sd_current_location d = Some (current_location s)"
      "sd_story_history d = Some (map event_asdict (story_history s))"
    using save_session_result [of s w] saved parts(1) by auto
  have "files ?w2 (session_file ?fresh) = Some (Parsed d)"
    using d(1) path by (simp add: new_session_fields)
  from load_session_parsed [OF this] d(2-4) parts
  have "loaded \<and> turn_count l = turn_count s \<and> current_location l = current_location s \<and>
     story_history l = story_history s"
    by (simp add: map_load_event_asdict)
  then show ?thesis by simp
qed

text \<open>
  A session with five appended events (the third append saved it on the way) and the
  location changed to Forest, saved and loaded into a new session.
\<close>

theorem save_load_round_trip_witness:
  "fst (save_then_load (fst five_events) (snd five_events)) \<and>
   session_file (fst five_events)
     = path_join (sessions_dir (fst five_events)) (session_id (fst five_events) @ ''.json'') \<and>
   fst (snd (save_then_load (fst five_events) (snd five_events))) \<and>
   turn_count (snd (snd (save_then_load (fst five_events) (snd five_events)))) = 5 \<and>
   current_location (snd (snd (save_then_load (fst five_events) (snd five_events))))
     = ''Forest'' \<and>
   map content (story_history (snd (snd (save_then_load (fst five_events) (snd five_events)))))
     = [''I search the room'', ''1d20: 15'', ''You find a hidden door!'',
        ''Combat started: Goblin Fight'', ''I attack the goblin'']"
proof -
  let ?r = "save_then_load (fst five_events) (snd five_events)"
  have run: "?r = (fst ?r, fst (snd ?r), snd (snd ?r))" by simp
  have saved: "fst ?r" by code_simp
  have path: "session_file (fst five_events)
     = path_join (sessions_dir (fst five_events)) (session_id (fst five_events) @ ''.json'')"
    by code_simp
  have before: "turn_count (fst five_events) = 5" "current_location (fst five_events) = ''Forest''"
    "map content (story_history (fst five_events))
     = [''I search the room'', ''1d20: 15'', ''You find a hidden door!'',
        ''Combat started: Goblin Fight'', ''I attack the goblin'']"
    by code_simp+
  show ?thesis
    using save_load_round_trip [OF run saved path] saved path before by simp
qed

subsection \<open>The context of a session\<close>

text \<open>
  With at least one event and a number of events of at least 1, the context is the
  header lines that apply, an empty line, and the lines of the last events, joined by
  line feeds; an event of a kind other than the four adds no line.
\<close>

lemma slice_from_last:
  "1 \<le> n \<Longrightarrow> slice_from xs (- n) = drop (length xs - nat n) xs"
proof -
  assume n: "1 \<le> n"
  have "nat (max 0 (- n + int (length xs))) = length xs - nat n" using n by simp
  then show ?thesis using n by (simp add: slice_from_def Let_def)
qed

lemma get_context_transcript:
  assumes "story_history s \<noteq> []" and "1 \<le> last_n"
  shows "get_context s last_n =
     join [CHR 0x0A]
       ((if current_location s \<noteq> [] then [''Current Location: '' @ current_location s] else [])
        @ (if current_scene s \<noteq> [] then [''Current Scene: '' @ current_scene s] else [])
        @ (if active_npcs s \<noteq> []
           then [''Active NPCs: '' @ join '', '' (active_npcs s)] else [])
        @ (if in_combat s then [''Status: Currently in combat''] else [])
        @ [[]]
        @ concat (map context_line
                    (drop (length (story_history s) - nat last_n) (story_history s))))"
  using assms by (simp add: get_context_def slice_from_last Let_def)

text \<open>With 0 for the number of events, the slice \<open>[-0:]\<close> is the whole history.\<close>

lemma slice_from_zero: "slice_from xs (- 0) = xs"
  by (simp add: slice_from_def)


text \<open>
  Claim C6 at a new session. The claim asks for the header (here the line
  \<open>Current Location: Starting Village\<close>), the blank separator and the events for every
  session state and every number of events, and the test \<open>test_get_context_empty\<close>
  expects that header line in the context of a new session. \<open>get_context\<close> returns
  before it builds the header when there is no event: the context of a new session is
  the empty string.
\<close>

theorem get_context_empty_history:
  "story_history (fst (new_session sid dir w)) = [] \<and>
   current_location (fst (new_session sid dir w)) = ''Starting Village'' \<and>
   get_context (fst (new_session sid dir w)) last_n = []"
  by (simp add: new_session_def now_def get_context_def)

end
